theory Spec2Isabelle
  imports Complex_Main "HOL-Library.Sublist" "HOL-Library.AList" "HOL-Library.Log_Nat"
begin

section \<open>Python texts, exceptions and the string primitives the application uses\<close>

text \<open>
  A Python \<^verbatim>\<open>str\<close> is a sequence of Unicode code points; it is modelled as the list
  of its code points, the integers that \<^verbatim>\<open>ord\<close> gives for its characters. \<open>ustr\<close> writes such a text as a literal and
  \<open>ord\<close> one of its characters. Exceptions are values of \<open>py_error\<close>; a function that
  may raise returns \<open>py_error + 'a\<close>.
\<close>

type_synonym pystr = "int list"

abbreviation ustr :: "string \<Rightarrow> pystr" where
  "ustr s \<equiv> map of_char s"

abbreviation ord :: "char \<Rightarrow> int" where
  "ord c \<equiv> of_char c"

datatype py_error =
    IndexError
  | KeyError
  | ValueError
  | TypeError
  | JSONDecodeError
  | ServiceError pystr
  | OSError pystr
  | StreamlitAPIException

text \<open>\<^verbatim>\<open>str.isspace\<close> for one character: the code points 9 to 13, 28 to 32, 133 (NEL),
  160 (NBSP), U+1680, U+2000 to U+200A, U+2028, U+2029, U+202F, U+205F and U+3000.\<close>

definition is_space :: "int \<Rightarrow> bool" where
  "is_space c \<longleftrightarrow>
     (9 \<le> c \<and> c \<le> 13) \<or> (28 \<le> c \<and> c \<le> 32) \<or> c = 133 \<or> c = 160 \<or> c = 5760 \<or>
     (8192 \<le> c \<and> c \<le> 8202) \<or> c = 8232 \<or> c = 8233 \<or> c = 8239 \<or> c = 8287 \<or> c = 12288"

text \<open>\<^verbatim>\<open>s.strip()\<close>: leading and trailing whitespace removed.\<close>

definition py_strip :: "pystr \<Rightarrow> pystr" where
  "py_strip s = rev (dropWhile is_space (rev (dropWhile is_space s)))"

text \<open>\<^verbatim>\<open>s.split(sep)\<close> for a separator of one character: every occurrence of the
  separator ends a field, so adjacent separators give empty fields and the result is
  never empty. \<open>acc\<close> holds the current field, reversed.\<close>

fun split_acc :: "int \<Rightarrow> pystr \<Rightarrow> pystr \<Rightarrow> pystr list" where
  "split_acc sep acc [] = [rev acc]"
| "split_acc sep acc (c # cs) =
     (if c = sep then rev acc # split_acc sep [] cs else split_acc sep (c # acc) cs)"

definition py_split :: "int \<Rightarrow> pystr \<Rightarrow> pystr list" where
  "py_split sep s = split_acc sep [] s"

text \<open>\<^verbatim>\<open>xs[i]\<close> for a list: a negative index counts from the end, an index out of range
  raises \<^verbatim>\<open>IndexError\<close>.\<close>

definition py_getitem :: "'a list \<Rightarrow> int \<Rightarrow> py_error + 'a" where
  "py_getitem xs i =
     (if 0 \<le> i \<and> i < int (length xs) then Inr (xs ! nat i)
      else if i < 0 \<and> - int (length xs) \<le> i then Inr (xs ! nat (int (length xs) + i))
      else Inl IndexError)"

text \<open>\<^verbatim>\<open>str(n)\<close> for a non-negative integer: its decimal digits, most significant first.\<close>

definition digit_char :: "nat \<Rightarrow> int" where
  "digit_char d = 48 + int d"

fun py_str :: "nat \<Rightarrow> pystr" where
  "py_str n = (if n < 10 then [digit_char n] else py_str (n div 10) @ [digit_char (n mod 10)])"

declare py_str.simps [simp del]

text \<open>
  \<^verbatim>\<open>int(s)\<close> for a text, in base 10. The interpreter first brings the text into ASCII
  (\<^verbatim>\<open>_PyUnicode_TransformDecimalAndSpaceToASCII\<close>): a text of ASCII characters only is
  taken as it is; in any other text a character below 127 is kept, a whitespace
  character becomes a space, a decimal digit of another script becomes the ASCII digit
  of its value, and at the first character that is none of these the text is cut and
  ends in a question mark. \<open>nd\<close> is the interpreter's table of decimal digit values
  (\<^verbatim>\<open>Py_UNICODE_TODECIMAL\<close>), which belongs to its Unicode database and is a parameter
  here. The ASCII text is then read by \<^verbatim>\<open>PyLong_FromString\<close>: ASCII whitespace around
  the number is skipped, one sign is allowed, then come decimal digits, where single
  underscores may stand between two digits. Anything else raises \<^verbatim>\<open>ValueError\<close>.
\<close>

fun to_ascii :: "(int \<Rightarrow> nat option) \<Rightarrow> pystr \<Rightarrow> pystr" where
  "to_ascii nd [] = []"
| "to_ascii nd (c # cs) =
     (if c < 127 then c # to_ascii nd cs
      else if is_space c then 32 # to_ascii nd cs
      else (case nd c of None \<Rightarrow> [63] | Some d \<Rightarrow> digit_char d # to_ascii nd cs))"

definition ascii_space :: "int \<Rightarrow> bool" where
  "ascii_space c \<longleftrightarrow> (9 \<le> c \<and> c \<le> 13) \<or> c = 32"

definition is_digit :: "int \<Rightarrow> bool" where
  "is_digit c \<longleftrightarrow> 48 \<le> c \<and> c \<le> 57"

definition digit_val :: "int \<Rightarrow> int" where
  "digit_val c = c - 48"

fun int_digits :: "int \<Rightarrow> pystr \<Rightarrow> int option" where
  "int_digits acc [] = Some acc"
| "int_digits acc [c] = (if is_digit c then Some (10 * acc + digit_val c) else None)"
| "int_digits acc (c # d # ds) =
     (if c = ord CHR ''_'' then
        (if is_digit d then int_digits (10 * acc + digit_val d) ds else None)
      else if is_digit c then int_digits (10 * acc + digit_val c) (d # ds)
      else None)"

definition int_literal :: "pystr \<Rightarrow> int option" where
  "int_literal s =
     (case s of [] \<Rightarrow> None
      | c # cs \<Rightarrow> if is_digit c then int_digits (digit_val c) cs else None)"

definition py_int :: "(int \<Rightarrow> nat option) \<Rightarrow> pystr \<Rightarrow> py_error + int" where
  "py_int nd s =
     (let a = (if list_all (\<lambda>c. c < 128) s then s else to_ascii nd s);
          t = rev (dropWhile ascii_space (rev (dropWhile ascii_space a)));
          neg = (t \<noteq> [] \<and> hd t = ord CHR ''-'');
          body = (if t \<noteq> [] \<and> (hd t = ord CHR ''-'' \<or> hd t = ord CHR ''+'') then tl t else t)
      in case int_literal body of
           None \<Rightarrow> Inl ValueError
         | Some n \<Rightarrow> Inr (if neg then - n else n))"

section \<open>Decoded JSON values and Python's \<^verbatim>\<open>json.loads\<close>\<close>

text \<open>
  A Python \<^verbatim>\<open>float\<close> by its value: a finite double is the rational number it stands
  for, with its sign (so that both zeros exist); the others are the two infinities and
  NaN. \<open>to_double\<close> rounds a non-negative rational to the nearest double, ties to the
  even mantissa, as the interpreter's correctly rounded \<^verbatim>\<open>float(text)\<close> does; \<open>None\<close> is
  overflow.
\<close>

datatype pyfloat = Finite bool rat | Infinite bool | NaN

definition rpow :: "rat \<Rightarrow> int \<Rightarrow> rat" where
  "rpow b e = (if 0 \<le> e then b ^ nat e else 1 / b ^ nat (- e))"

definition ilog2 :: "rat \<Rightarrow> int" where
  "ilog2 q =
     (let e = bitlen (fst (quotient_of q)) - bitlen (snd (quotient_of q))
      in if rpow 2 e \<le> q then e else e - 1)"

definition round_half_even :: "rat \<Rightarrow> int" where
  "round_half_even x =
     (let f = \<lfloor>x\<rfloor>; r = x - of_int f
      in if r < 1 / 2 then f else if 1 / 2 < r then f + 1 else if even f then f else f + 1)"

definition to_double :: "rat \<Rightarrow> rat option" where
  "to_double q =
     (if q = 0 then Some 0
      else
        (let e = max (ilog2 q) (- 1022);
             u = rpow 2 (e - 52);
             v = of_int (round_half_even (q / u)) * u
         in if rpow 2 1024 \<le> v then None else Some v))"

text \<open>\<^verbatim>\<open>float(literal)\<close> for the number \<open>m * 10 ^ e\<close> with a sign.\<close>

definition float_of_decimal :: "bool \<Rightarrow> int \<Rightarrow> int \<Rightarrow> pyfloat" where
  "float_of_decimal neg m e =
     (case to_double (of_int m * rpow 10 e) of
        None \<Rightarrow> Infinite neg
      | Some v \<Rightarrow> Finite neg v)"

text \<open>
  The application hands the cleaned reply to \<^verbatim>\<open>json.loads\<close> of the standard library.
  The decoder is modelled after the library's scanner (\<^verbatim>\<open>json/scanner.py\<close>,
  \<^verbatim>\<open>json/decoder.py\<close>), function by function, on the remaining input instead of an
  index into it. A decoded value is a \<open>json\<close>: \<open>JNull\<close> is Python's \<^verbatim>\<open>None\<close>, \<open>JInt\<close> an
  \<^verbatim>\<open>int\<close>, \<open>JFloat\<close> a \<^verbatim>\<open>float\<close>, \<open>JString\<close> a \<^verbatim>\<open>str\<close>, \<open>JArray\<close> a \<^verbatim>\<open>list\<close>, and
  \<open>JObject\<close> a \<^verbatim>\<open>dict\<close>, an association list in insertion order with one entry per key.
  Every decoding error is the one exception \<^verbatim>\<open>JSONDecodeError\<close>, so the scanning
  functions return \<open>None\<close> for it. The interpreter's limits on the nesting depth and on
  the number of digits of an integer are not modelled.
\<close>

datatype json =
    JNull
  | JBool bool
  | JInt int
  | JFloat pyfloat
  | JString pystr
  | JArray "json list"
  | JObject "(pystr \<times> json) list"

text \<open>\<^verbatim>\<open>WHITESPACE\<close> of the decoder: space, TAB, LF and CR.\<close>

definition json_ws :: "int \<Rightarrow> bool" where
  "json_ws c \<longleftrightarrow> c = 32 \<or> c = 9 \<or> c = 10 \<or> c = 13"

definition skip_ws :: "pystr \<Rightarrow> pystr" where
  "skip_ws s = dropWhile json_ws s"

text \<open>
  \<^verbatim>\<open>scanstring\<close> in strict mode, called after the opening quote: the text up to the
  closing quote, with escapes resolved, and the input after it. A control character, an
  unknown escape or a missing closing quote is an error. An escape \<^verbatim>\<open>uXXXX\<close> gives the
  character of that code; a high surrogate followed by an escaped low surrogate gives
  the one character the pair stands for.
\<close>

definition is_hex :: "int \<Rightarrow> bool" where
  "is_hex c \<longleftrightarrow> is_digit c \<or> (97 \<le> c \<and> c \<le> 102) \<or> (65 \<le> c \<and> c \<le> 70)"

definition hex_val :: "int \<Rightarrow> int" where
  "hex_val c =
     (if is_digit c then c - 48
      else if 97 \<le> c then c - 87
      else c - 55)"

definition backslash :: "int \<Rightarrow> int option" where
  "backslash e =
     (if e = ord CHR 0x22 then Some 34
      else if e = ord CHR 0x5C then Some 92
      else if e = ord CHR ''/'' then Some 47
      else if e = ord CHR ''b'' then Some 8
      else if e = ord CHR ''f'' then Some 12
      else if e = ord CHR ''n'' then Some 10
      else if e = ord CHR ''r'' then Some 13
      else if e = ord CHR ''t'' then Some 9
      else None)"

definition decode_uXXXX :: "pystr \<Rightarrow> int option" where
  "decode_uXXXX s =
     (if 4 \<le> length s \<and> list_all is_hex (take 4 s)
      then Some (foldl (\<lambda>a c. 16 * a + hex_val c) 0 (take 4 s))
      else None)"

text \<open>
  The escape \<^verbatim>\<open>uXXXX\<close> of \<^verbatim>\<open>scanstring\<close>, called after the \<^verbatim>\<open>u\<close>: the character and
  the number of input characters it takes.
\<close>

definition unicode_escape :: "pystr \<Rightarrow> (int \<times> nat) option" where
  "unicode_escape s =
     (case decode_uXXXX s of
        None \<Rightarrow> None
      | Some uni \<Rightarrow>
          if 55296 \<le> uni \<and> uni \<le> 56319 \<and> prefix [92, 117] (drop 4 s) then
            (case decode_uXXXX (drop 6 s) of
               None \<Rightarrow> None
             | Some uni2 \<Rightarrow>
                 if 56320 \<le> uni2 \<and> uni2 \<le> 57343
                 then Some (65536 + ((uni - 55296) * 1024 + (uni2 - 56320)), 10)
                 else Some (uni, 4))
          else Some (uni, 4))"

definition cons_text :: "int \<Rightarrow> (pystr \<times> pystr) option \<Rightarrow> (pystr \<times> pystr) option" where
  "cons_text c res = map_option (\<lambda>(x, r). (c # x, r)) res"

function scanstring :: "pystr \<Rightarrow> (pystr \<times> pystr) option" where
  "scanstring [] = None"
| "scanstring [c] = (if c = ord CHR 0x22 then Some ([], []) else None)"
| "scanstring (c # e # cs) =
     (if c = ord CHR 0x22 then Some ([], e # cs)
      else if c = ord CHR 0x5C then
        (if e = ord CHR ''u'' then
           (case unicode_escape cs of
              None \<Rightarrow> None
            | Some (ch, n) \<Rightarrow> cons_text ch (scanstring (drop n cs)))
         else
           (case backslash e of
              None \<Rightarrow> None
            | Some ch \<Rightarrow> cons_text ch (scanstring cs)))
      else if c < 32 then None
      else cons_text c (scanstring (e # cs)))"
  by pat_completeness auto
termination
  by (relation "measure length") auto

text \<open>
  \<^verbatim>\<open>NUMBER_RE\<close>: an optional minus sign, then \<^verbatim>\<open>0\<close> or a digit from 1 to 9 followed
  by digits, then optionally a point with at least one digit, then optionally an exponent
  with at least one digit. An optional part that does not match completely is not
  consumed. A number with neither fraction nor exponent is an \<^verbatim>\<open>int\<close>, any other a
  \<^verbatim>\<open>float\<close>.
\<close>

definition digits_value :: "pystr \<Rightarrow> int" where
  "digits_value ds = foldl (\<lambda>a c. 10 * a + digit_val c) 0 ds"

definition scan_frac :: "pystr \<Rightarrow> pystr \<times> pystr" where
  "scan_frac s =
     (case s of
        p # d # r \<Rightarrow>
          if p = ord CHR ''.'' \<and> is_digit d
          then (p # d # takeWhile is_digit r, dropWhile is_digit r)
          else ([], s)
      | _ \<Rightarrow> ([], s))"

definition exp_sign :: "pystr \<Rightarrow> pystr" where
  "exp_sign r =
     (case r of [] \<Rightarrow> [] | c # _ \<Rightarrow> if c = ord CHR ''-'' \<or> c = ord CHR ''+'' then [c] else [])"

definition scan_exp :: "pystr \<Rightarrow> pystr \<times> pystr" where
  "scan_exp s =
     (case s of
        [] \<Rightarrow> ([], s)
      | e # r \<Rightarrow>
          if e = ord CHR ''e'' \<or> e = ord CHR ''E'' then
            (let sgn = exp_sign r; r' = drop (length sgn) r
             in if r' \<noteq> [] \<and> is_digit (hd r')
                then (e # sgn @ takeWhile is_digit r', dropWhile is_digit r')
                else ([], s))
          else ([], s))"

definition scan_int :: "pystr \<Rightarrow> (pystr \<times> pystr) option" where
  "scan_int s =
     (case s of
        [] \<Rightarrow> None
      | c # r \<Rightarrow>
          if c = ord CHR ''0'' then Some ([c], r)
          else if is_digit c then Some (c # takeWhile is_digit r, dropWhile is_digit r)
          else None)"

text \<open>The value of an exponent part \<^verbatim>\<open>e\<close>, sign, digits; 0 when there is none.\<close>

definition exp_value :: "pystr \<Rightarrow> int" where
  "exp_value ex =
     (case ex of
        [] \<Rightarrow> 0
      | e # r \<Rightarrow>
          if exp_sign r = [ord CHR ''-''] then - digits_value (tl r)
          else digits_value (drop (length (exp_sign r)) r))"

definition number_value :: "bool \<Rightarrow> pystr \<Rightarrow> pystr \<Rightarrow> pystr \<Rightarrow> json" where
  "number_value neg ds fr ex =
     (if fr = [] \<and> ex = []
      then JInt (if neg then - digits_value ds else digits_value ds)
      else JFloat (float_of_decimal neg (digits_value (ds @ tl fr))
                     (exp_value ex - int (length (tl fr)))))"

definition match_number :: "pystr \<Rightarrow> (json \<times> pystr) option" where
  "match_number s =
     (let neg = (s \<noteq> [] \<and> hd s = ord CHR ''-'')
      in case scan_int (if neg then tl s else s) of
           None \<Rightarrow> None
         | Some (ds, r) \<Rightarrow>
             (let (fr, r1) = scan_frac r; (ex, r2) = scan_exp r1
              in Some (number_value neg ds fr ex, r2)))"

text \<open>\<^verbatim>\<open>dict(pairs)\<close>: a later pair with the same key replaces the value and keeps the
  position of the first.\<close>

definition py_dict :: "(pystr \<times> json) list \<Rightarrow> (pystr \<times> json) list" where
  "py_dict pairs = foldl (\<lambda>d (k, v). AList.update k v d) [] pairs"

lemma skip_ws_length: "length (skip_ws s) \<le> length s"
  by (simp add: skip_ws_def length_dropWhile_le)

lemma skip_ws_Cons_shorter: "skip_ws s = d # ds \<Longrightarrow> length ds < length s"
  using skip_ws_length [of s] by simp

lemma scanstring_shorter: "scanstring s = Some (x, r) \<Longrightarrow> length r < length s"
proof (induction s arbitrary: x r rule: scanstring.induct)
  case 1
  then show ?case by simp
next
  case (2 c)
  then show ?case by (simp split: if_splits)
next
  case (3 c e cs)
  then show ?case
    by (fastforce simp: cons_text_def split: if_splits option.splits)
qed

text \<open>
  The end of the \<^verbatim>\<open>if\<close> chain of \<^verbatim>\<open>scan_once\<close>, for input that starts neither a text
  nor an object nor an array: the three literals, then a number, then the three
  non-finite constants.
\<close>

definition scan_atom :: "pystr \<Rightarrow> (json \<times> pystr) option" where
  "scan_atom s =
     (if prefix (ustr ''null'') s then Some (JNull, drop 4 s)
      else if prefix (ustr ''true'') s then Some (JBool True, drop 4 s)
      else if prefix (ustr ''false'') s then Some (JBool False, drop 5 s)
      else
        (case match_number s of
           Some res \<Rightarrow> Some res
         | None \<Rightarrow>
             if prefix (ustr ''NaN'') s then Some (JFloat NaN, drop 3 s)
             else if prefix (ustr ''Infinity'') s then Some (JFloat (Infinite False), drop 8 s)
             else if prefix (ustr ''-Infinity'') s then Some (JFloat (Infinite True), drop 9 s)
             else None))"

text \<open>
  \<^verbatim>\<open>scan_once\<close>, \<^verbatim>\<open>JSONArray\<close> (from its first element on) and \<^verbatim>\<open>JSONObject\<close>
  (from after the opening quote of a key on). The two tests \<open>length s \<le> length r\<close> only
  make the recursion well-founded: a successful scan always consumes input
  (\<open>scan_consumes\<close> below), so they never fail.
\<close>

function scan_once :: "pystr \<Rightarrow> (json \<times> pystr) option"
  and array_loop :: "pystr \<Rightarrow> (json list \<times> pystr) option"
  and object_loop :: "pystr \<Rightarrow> ((pystr \<times> json) list \<times> pystr) option"
where
  "scan_once [] = None"
| "scan_once (c # cs) =
     (if c = ord CHR 0x22 then map_option (\<lambda>(x, r). (JString x, r)) (scanstring cs)
      else if c = ord CHR ''{'' then
        (case skip_ws cs of
           [] \<Rightarrow> None
         | d # ds \<Rightarrow>
             if d = ord CHR ''}'' then Some (JObject [], ds)
             else if d = ord CHR 0x22
               then map_option (\<lambda>(ps, r). (JObject (py_dict ps), r)) (object_loop ds)
             else None)
      else if c = ord CHR ''['' then
        (case skip_ws cs of
           [] \<Rightarrow> None
         | d # ds \<Rightarrow>
             if d = ord CHR '']'' then Some (JArray [], ds)
             else map_option (\<lambda>(vs, r). (JArray vs, r)) (array_loop (d # ds)))
      else scan_atom (c # cs))"
| "array_loop s =
     (case scan_once s of
        None \<Rightarrow> None
      | Some (v, r) \<Rightarrow>
          if length s \<le> length r then None
          else
            (case skip_ws r of
               [] \<Rightarrow> None
             | d # ds \<Rightarrow>
                 if d = ord CHR '']'' then Some ([v], ds)
                 else if d = ord CHR '',''
                   then map_option (\<lambda>(vs, r'). (v # vs, r')) (array_loop (skip_ws ds))
                 else None))"
| "object_loop s =
     (case scanstring s of
        None \<Rightarrow> None
      | Some (key, r) \<Rightarrow>
          (case skip_ws r of
             [] \<Rightarrow> None
           | p # r1 \<Rightarrow>
               if p \<noteq> ord CHR '':'' then None
               else
                 (case scan_once (skip_ws r1) of
                    None \<Rightarrow> None
                  | Some (v, r2) \<Rightarrow>
                      if length s \<le> length r2 then None
                      else
                        (case skip_ws r2 of
                           [] \<Rightarrow> None
                         | d # r3 \<Rightarrow>
                             if d = ord CHR ''}'' then Some ([(key, v)], r3)
                             else if d = ord CHR '','' then
                               (case skip_ws r3 of
                                  [] \<Rightarrow> None
                                | q # r4 \<Rightarrow>
                                    if q = ord CHR 0x22
                                    then map_option (\<lambda>(ps, r'). ((key, v) # ps, r'))
                                           (object_loop r4)
                                    else None)
                             else None))))"
  by pat_completeness auto
termination
proof (relation "measure (\<lambda>x. case x of Inl s \<Rightarrow> 2 * length s
                                   | Inr (Inl s) \<Rightarrow> 2 * length s + 1
                                   | Inr (Inr s) \<Rightarrow> 2 * length s + 1)", goal_cases)
  case 1
  show ?case by simp
next
  case (2 c cs d ds)
  then show ?case by (auto dest: skip_ws_Cons_shorter)
next
  case (3 c cs d ds)
  then show ?case using skip_ws_length [of cs] by simp
next
  case (4 s)
  then show ?case by simp
next
  case (5 s x v r d ds)
  then show ?case using skip_ws_length [of ds] by (auto dest: skip_ws_Cons_shorter)
next
  case (6 s x key r p r1)
  then have "length r < length s" and "length r1 < length r"
    by (auto dest: scanstring_shorter skip_ws_Cons_shorter)
  then show ?case using skip_ws_length [of r1] by simp
next
  case (7 s x key r p r1 y v r2 d r3 q r4)
  then show ?case by (auto dest!: skip_ws_Cons_shorter)
qed

declare scan_once.simps [simp del] array_loop.simps [simp del] object_loop.simps [simp del]

text \<open>\<^verbatim>\<open>JSONDecoder.decode\<close>: whitespace, one value, whitespace, end of input.\<close>

definition json_loads :: "pystr \<Rightarrow> py_error + json" where
  "json_loads s =
     (case scan_once (skip_ws s) of
        None \<Rightarrow> Inl JSONDecodeError
      | Some (v, r) \<Rightarrow> if skip_ws r = [] then Inr v else Inl JSONDecodeError)"

section \<open>Operations of Python on decoded values\<close>

text \<open>Sequencing of steps that may raise: the first exception ends the sequence.\<close>

definition and_then :: "'e + 'a \<Rightarrow> ('a \<Rightarrow> 'e + 'b) \<Rightarrow> 'e + 'b" where
  "and_then m f = (case m of Inl e \<Rightarrow> Inl e | Inr x \<Rightarrow> f x)"

text \<open>\<^verbatim>\<open>len(v)\<close>: lists, dicts and texts have a length, the other values raise
  \<^verbatim>\<open>TypeError\<close>.\<close>

definition py_len :: "json \<Rightarrow> py_error + nat" where
  "py_len v =
     (case v of
        JArray xs \<Rightarrow> Inr (length xs)
      | JObject ps \<Rightarrow> Inr (length ps)
      | JString x \<Rightarrow> Inr (length x)
      | _ \<Rightarrow> Inl TypeError)"

text \<open>The truth value of \<^verbatim>\<open>v\<close>: \<^verbatim>\<open>None\<close>, \<^verbatim>\<open>False\<close>, the zeros (also \<^verbatim>\<open>-0.0\<close>) and the
  empty text, list and dict are false.\<close>

definition py_truthy :: "json \<Rightarrow> bool" where
  "py_truthy v \<longleftrightarrow>
     (case v of
        JNull \<Rightarrow> False
      | JBool b \<Rightarrow> b
      | JInt n \<Rightarrow> n \<noteq> 0
      | JFloat x \<Rightarrow> (case x of Finite neg r \<Rightarrow> r \<noteq> 0 | _ \<Rightarrow> True)
      | JString x \<Rightarrow> x \<noteq> []
      | JArray xs \<Rightarrow> xs \<noteq> []
      | JObject ps \<Rightarrow> ps \<noteq> [])"

text \<open>\<^verbatim>\<open>for x in v\<close>: the elements of a list, the characters of a text, the keys of a
  dict; the other values are not iterable.\<close>

definition py_iter :: "json \<Rightarrow> py_error + json list" where
  "py_iter v =
     (case v of
        JArray xs \<Rightarrow> Inr xs
      | JString x \<Rightarrow> Inr (map (\<lambda>c. JString [c]) x)
      | JObject ps \<Rightarrow> Inr (map (\<lambda>(k, w). JString k) ps)
      | _ \<Rightarrow> Inl TypeError)"

text \<open>\<^verbatim>\<open>v[i]\<close> for an integer \<open>i\<close>: an element of a list, a character of a text; a dict
  (its keys are texts) has no such key; the other values cannot be subscripted.\<close>

definition py_item :: "json \<Rightarrow> int \<Rightarrow> py_error + json" where
  "py_item v i =
     (case v of
        JArray xs \<Rightarrow> py_getitem xs i
      | JString x \<Rightarrow> map_sum id (\<lambda>c. JString [c]) (py_getitem x i)
      | JObject ps \<Rightarrow> Inl KeyError
      | _ \<Rightarrow> Inl TypeError)"

text \<open>\<^verbatim>\<open>v[k]\<close> for a text \<open>k\<close>: the value of a dict at that key; every other value raises
  \<^verbatim>\<open>TypeError\<close> (lists and texts want integer indices).\<close>

definition py_key :: "json \<Rightarrow> pystr \<Rightarrow> py_error + json" where
  "py_key v k =
     (case v of
        JObject ps \<Rightarrow> (case map_of ps k of None \<Rightarrow> Inl KeyError | Some w \<Rightarrow> Inr w)
      | _ \<Rightarrow> Inl TypeError)"

text \<open>
  Equality. \<^verbatim>\<open>True\<close>, \<^verbatim>\<open>1\<close> and \<^verbatim>\<open>1.0\<close> are equal: booleans, integers and finite floats
  are compared by their exact value. \<open>num_val\<close> is that value.
\<close>

definition num_val :: "json \<Rightarrow> rat option" where
  "num_val v =
     (case v of
        JBool b \<Rightarrow> Some (if b then 1 else 0)
      | JInt n \<Rightarrow> Some (of_int n)
      | JFloat x \<Rightarrow> (case x of Finite neg r \<Rightarrow> Some (if neg then - r else r) | _ \<Rightarrow> None)
      | _ \<Rightarrow> None)"

text \<open>
  What containers use for their elements (in \<^verbatim>\<open>==\<close> of lists and dicts, in \<^verbatim>\<open>in\<close> and in
  \<^verbatim>\<open>index\<close>): the same object, or equal. The decoder returns one and the same object for
  every \<^verbatim>\<open>NaN\<close>, so here \<^verbatim>\<open>NaN\<close> is the same as \<^verbatim>\<open>NaN\<close>; every other value that is the
  same object as another is also equal to it.
\<close>

definition atom_same :: "json \<Rightarrow> json \<Rightarrow> bool" where
  "atom_same v w =
     (case (num_val v, num_val w) of
        (Some a, Some b) \<Rightarrow> a = b
      | (None, None) \<Rightarrow> v = w
      | _ \<Rightarrow> False)"

fun py_same :: "json \<Rightarrow> json \<Rightarrow> bool" where
  "py_same (JArray xs) w = (case w of JArray ys \<Rightarrow> list_all2 py_same xs ys | _ \<Rightarrow> False)"
| "py_same (JObject ps) w =
     (case w of
        JObject qs \<Rightarrow>
          length ps = length qs \<and>
          list_all (\<lambda>p. case map_of qs (fst p) of
                           None \<Rightarrow> False
                         | Some w' \<Rightarrow> py_same (snd p) w') ps
      | _ \<Rightarrow> False)"
| "py_same v w = atom_same v w"

text \<open>\<^verbatim>\<open>v == w\<close>: \<^verbatim>\<open>NaN\<close> is equal to nothing, not even to itself.\<close>

definition py_eq :: "json \<Rightarrow> json \<Rightarrow> bool" where
  "py_eq v w \<longleftrightarrow> v \<noteq> JFloat NaN \<and> w \<noteq> JFloat NaN \<and> py_same v w"

text \<open>\<^verbatim>\<open>x in xs\<close> and \<^verbatim>\<open>xs.index(x)\<close> for a list: the first element that is \<open>x\<close> or
  equal to it; \<^verbatim>\<open>index\<close> raises \<^verbatim>\<open>ValueError\<close> when there is none.\<close>

definition py_in :: "json \<Rightarrow> json list \<Rightarrow> bool" where
  "py_in x xs = list_ex (\<lambda>y. py_same y x) xs"

fun py_index :: "json list \<Rightarrow> json \<Rightarrow> py_error + nat" where
  "py_index [] x = Inl ValueError"
| "py_index (y # ys) x = (if py_same y x then Inr 0 else map_sum id Suc (py_index ys x))"

section \<open>The extraction gateway (\<^verbatim>\<open>configure_ai\<close> and \<^verbatim>\<open>parse_quiz_file_with_ai\<close>)\<close>

text \<open>\<^verbatim>\<open>s.replace(old, new)\<close>: the occurrences of \<open>old\<close> are found from the left and do
  not overlap; an empty \<open>old\<close> matches before every character and at the end.\<close>

function py_replace :: "pystr \<Rightarrow> pystr \<Rightarrow> pystr \<Rightarrow> pystr" where
  "py_replace old new [] = (if old = [] then new else [])"
| "py_replace old new (c # cs) =
     (if old = [] then new @ c # py_replace old new cs
      else if prefix old (c # cs) then new @ py_replace old new (drop (length old) (c # cs))
      else c # py_replace old new cs)"
  by pat_completeness auto
termination
  by (relation "measure (\<lambda>(old, new, s). length s)") auto

declare py_replace.simps [simp del]

text \<open>Line 76: \<^verbatim>\<open>response.text.strip().replace("```json", "").replace("```", "")\<close>.\<close>

definition clean_reply :: "pystr \<Rightarrow> pystr" where
  "clean_reply t = py_replace (ustr ''```'') [] (py_replace (ustr ''```json'') [] (py_strip t))"

text \<open>
  What the functions show to the user: the calls of \<^verbatim>\<open>st.info\<close>, \<^verbatim>\<open>st.success\<close>,
  \<^verbatim>\<open>st.error\<close> and \<^verbatim>\<open>st.code\<close>, in order. \<open>St_Error_Details e\<close> stands for
  \<^verbatim>\<open>st.error(f"Details: {e}")\<close> with the exception \<open>e\<close>.
\<close>

datatype ui =
    St_Info pystr
  | St_Success pystr
  | St_Error pystr
  | St_Error_Details py_error
  | St_Code pystr

text \<open>
  What \<^verbatim>\<open>configure_ai\<close> meets (lines 17-19): the key is in the secrets and not empty and
  the client accepts it; the key is absent or empty; or reading the secrets or
  configuring the client raises, with the text of the exception.
\<close>

datatype secrets = Key_Set | Key_Missing | Secrets_Raise pystr

text \<open>Lines 15-28: the result and what is shown.\<close>

definition configure_ai :: "secrets \<Rightarrow> bool \<times> ui list" where
  "configure_ai sec =
     (case sec of
        Key_Set \<Rightarrow> (True, [])
      | Key_Missing \<Rightarrow>
          (False,
           [St_Error (ustr ''Error: GOOGLE_API_KEY not found in Streamlit secrets.''),
            St_Info (ustr ''Please create a file named `.streamlit/secrets.toml` and add your key: `GOOGLE_API_KEY = ''
                     @ [39] @ ustr ''YOUR_API_KEY_HERE'' @ [39] @ ustr ''`'')])
      | Secrets_Raise msg \<Rightarrow> (False, [St_Error (ustr ''AI Configuration Error: '' @ msg)]))"

text \<open>
  The outcome of the calls to the external service (lines 44-76). One of the calls up to
  \<^verbatim>\<open>generate_content\<close> raises, and no response is bound; or a response is bound but has
  no text (the prompt was blocked, or no candidate came back), and reading
  \<^verbatim>\<open>response.text\<close> raises \<^verbatim>\<open>ValueError\<close>, every time it is read; or there is a response
  with its text.
\<close>

datatype ai_call = Call_Raises pystr | Blocked | Response pystr

text \<open>Lines 40-83, the body of the \<^verbatim>\<open>try\<close>: the value it returns and what it shows
  after the first message, or the exception it raises.\<close>

definition extraction :: "ai_call \<Rightarrow> py_error + json \<times> ui list" where
  "extraction call =
     (case call of
        Call_Raises msg \<Rightarrow> Inl (ServiceError msg)
      | Blocked \<Rightarrow> Inl ValueError
      | Response t \<Rightarrow>
          and_then (json_loads (clean_reply t)) (\<lambda>questions.
          and_then (py_len questions) (\<lambda>n.
            Inr (questions,
                 [St_Success (ustr ''AI analysis complete! Found '' @ py_str n @
                              ustr '' questions.'')]))))"

text \<open>
  Lines 85-92, the handler: two error messages; then, when a response is bound,
  \<^verbatim>\<open>hasattr(response, 'text')\<close> reads the text again, and \<^verbatim>\<open>hasattr\<close> lets every
  exception but \<^verbatim>\<open>AttributeError\<close> pass: for a response without text the
  \<^verbatim>\<open>ValueError\<close> leaves the function. Otherwise the raw text is shown, if there is a
  response, and the result is the empty list.
\<close>

definition handler :: "ai_call \<Rightarrow> py_error \<Rightarrow> (py_error + json) \<times> ui list" where
  "handler call e =
     (let shown = [St_Error (ustr ''An error occurred while the AI was analyzing the file.''),
                   St_Error_Details e]
      in case call of
           Call_Raises msg \<Rightarrow> (Inr (JArray []), shown)
         | Blocked \<Rightarrow> (Inl ValueError, shown)
         | Response t \<Rightarrow> (Inr (JArray []), shown @ [St_Code t]))"

text \<open>Lines 30-92: what the function returns or raises, and everything shown.\<close>

definition parse_quiz_file_with_ai :: "secrets \<Rightarrow> ai_call \<Rightarrow> (py_error + json) \<times> ui list" where
  "parse_quiz_file_with_ai sec call =
     (let (configured, shown) = configure_ai sec
      in if \<not> configured then (Inr (JArray []), shown)
         else
           (let started = [St_Info (ustr ''Keedam AI is analyzing your document. This may take a few moments...'')]
            in case extraction call of
                 Inr (questions, more) \<Rightarrow> (Inr questions, started @ more)
               | Inl e \<Rightarrow> (let (res, more) = handler call e in (res, started @ more))))"

section \<open>The quiz session (\<^verbatim>\<open>main\<close> of app.py)\<close>

text \<open>The four values of \<^verbatim>\<open>st.session_state.state\<close>.\<close>

datatype phase = initial | quiz_started | show_feedback | finished

text \<open>
  \<^verbatim>\<open>st.session_state\<close>. The store \<^verbatim>\<open>questions\<close> is whatever the gateway returned, any
  decoded value. A stored answer is the value the radio widget returned, one of the
  choices or Python's \<^verbatim>\<open>None\<close> (\<open>JNull\<close>); the ledger is a dict from question index to
  that value.
\<close>

record session =
  state :: phase
  questions :: json
  current_question :: int
  user_answers :: "int \<rightharpoonup> json"

text \<open>Lines 101-105: the state a fresh session starts from.\<close>

definition init_session :: session where
  "init_session =
     \<lparr>state = initial, questions = JArray [], current_question = 0, user_answers = Map.empty\<rparr>"

text \<open>\<^verbatim>\<open>d.get(k)\<close> and \<^verbatim>\<open>d.get(k, default)\<close> on the ledger.\<close>

definition dict_get :: "(int \<rightharpoonup> json) \<Rightarrow> int \<Rightarrow> json" where
  "dict_get d k = (case d k of None \<Rightarrow> JNull | Some v \<Rightarrow> v)"

definition dict_get_default :: "(int \<rightharpoonup> json) \<Rightarrow> int \<Rightarrow> json \<Rightarrow> json" where
  "dict_get_default d k dflt = (case d k of None \<Rightarrow> dflt | Some v \<Rightarrow> v)"

text \<open>
  Line 132: the final score, one point for every position \<open>i\<close> with
  \<^verbatim>\<open>user_answers.get(i) == q['answer']\<close>. \<open>score_from\<close> is the generator over the
  elements from position \<open>i\<close> on.
\<close>

fun score_from :: "(int \<rightharpoonup> json) \<Rightarrow> int \<Rightarrow> json list \<Rightarrow> py_error + nat" where
  "score_from answers i [] = Inr 0"
| "score_from answers i (q # qs) =
     and_then (py_key q (ustr ''answer'')) (\<lambda>correct_answer.
     and_then (score_from answers (i + 1) qs) (\<lambda>n.
       Inr (if py_eq (dict_get answers i) correct_answer then n + 1 else n)))"

definition score :: "session \<Rightarrow> py_error + nat" where
  "score s = and_then (py_iter (questions s)) (score_from (user_answers s) 0)"

text \<open>
  Lines 137-144: the review list, \<open>True\<close> for an entry marked correct. An entry
  compares \<^verbatim>\<open>user_answers.get(i, "Not Answered")\<close> with \<^verbatim>\<open>q['answer']\<close> and shows
  \<^verbatim>\<open>q['question']\<close>.
\<close>

fun review_from :: "(int \<rightharpoonup> json) \<Rightarrow> int \<Rightarrow> json list \<Rightarrow> py_error + bool list" where
  "review_from answers i [] = Inr []"
| "review_from answers i (q # qs) =
     (let user_answer = dict_get_default answers i (JString (ustr ''Not Answered''))
      in and_then (py_key q (ustr ''answer'')) (\<lambda>correct_answer.
         and_then (py_key q (ustr ''question'')) (\<lambda>shown.
         and_then (review_from answers (i + 1) qs) (\<lambda>marks.
           Inr (py_eq user_answer correct_answer # marks)))))"

definition review :: "session \<Rightarrow> py_error + bool list" where
  "review s = and_then (py_iter (questions s)) (review_from (user_answers s) 0)"

text \<open>Lines 132-144: what a run shows in state \<^verbatim>\<open>finished\<close>: the score, the number of
  questions and the review list.\<close>

definition finished_view :: "session \<Rightarrow> py_error + nat \<times> nat \<times> bool list" where
  "finished_view s =
     and_then (score s) (\<lambda>n.
     and_then (py_len (questions s)) (\<lambda>m.
     and_then (review s) (\<lambda>marks. Inr (n, m, marks))))"

text \<open>Line 162: the entries of the \<^verbatim>\<open>Skip to question\<close> selector for \<open>n\<close> questions.\<close>

definition jumper_options :: "nat \<Rightarrow> pystr list" where
  "jumper_options n = map (\<lambda>i. ustr ''Question '' @ py_str (i + 1)) [0..<n]"

text \<open>Lines 154-160: the selector's callback. \<open>sel\<close> is the selected entry,
  \<^verbatim>\<open>st.session_state.question_jumper\<close>; \<open>nd\<close> is the table of \<^verbatim>\<open>int\<close>.\<close>

definition jump_to_question ::
  "(int \<Rightarrow> nat option) \<Rightarrow> pystr \<Rightarrow> session \<Rightarrow> py_error + session" where
  "jump_to_question nd sel s =
     and_then (py_getitem (py_split 32 sel) 1) (\<lambda>w.
     and_then (py_int nd w) (\<lambda>n.
       Inr (s\<lparr>current_question := n - 1, state := quiz_started\<rparr>)))"

text \<open>
  \<^verbatim>\<open>st.selectbox\<close> and \<^verbatim>\<open>st.radio\<close> refuse an \<^verbatim>\<open>index\<close> that is not a position of a
  non-empty list of options.
\<close>

definition check_index :: "nat \<Rightarrow> int \<Rightarrow> py_error + unit" where
  "check_index n index =
     (if 0 < n \<and> (index < 0 \<or> int n \<le> index) then Inl StreamlitAPIException else Inr ())"

text \<open>Line 169: the choices offered for an element, \<^verbatim>\<open>[opt for opt in
  q_data["options"] if opt]\<close>.\<close>

definition valid_options :: "json \<Rightarrow> py_error + json list" where
  "valid_options q_data =
     and_then (py_key q_data (ustr ''options'')) (\<lambda>opts.
     and_then (py_iter opts) (\<lambda>xs. Inr (filter py_truthy xs)))"

text \<open>
  Lines 151-169, common to the states \<^verbatim>\<open>quiz_started\<close> and \<^verbatim>\<open>show_feedback\<close>: the
  current element \<^verbatim>\<open>q_data\<close>, the selector, the heading, the question and the choices
  \<^verbatim>\<open>valid_options\<close>. The result is \<^verbatim>\<open>q_data\<close> and \<^verbatim>\<open>valid_options\<close>.
\<close>

definition quiz_view :: "session \<Rightarrow> py_error + json \<times> json list" where
  "quiz_view s =
     and_then (py_item (questions s) (current_question s)) (\<lambda>q_data.
     and_then (py_len (questions s)) (\<lambda>n.
     and_then (check_index n (current_question s)) (\<lambda>u.
     and_then (py_key q_data (ustr ''question'')) (\<lambda>shown.
     and_then (valid_options q_data) (\<lambda>choices.
       Inr (q_data, choices))))))"

text \<open>Lines 173-174: the choice preselected in the answer form.\<close>

definition previous_answer_index :: "session \<Rightarrow> json list \<Rightarrow> py_error + nat" where
  "previous_answer_index s choices =
     (let previous_answer = dict_get (user_answers s) (current_question s)
      in if py_in previous_answer choices
         then py_index choices previous_answer
         else Inr 0)"

text \<open>Lines 183-185: the choice shown in the feedback view.\<close>

definition default_index :: "session \<Rightarrow> json list \<Rightarrow> nat" where
  "default_index s choices =
     (case py_index choices
             (dict_get_default (user_answers s) (current_question s) (JString [])) of
        Inl e \<Rightarrow> 0
      | Inr i \<Rightarrow> i)"

text \<open>Lines 183 and 189-193: the verdict shown in the feedback view, \<open>True\<close> for
  \<^verbatim>\<open>Correct!\<close>.\<close>

definition feedback_correct :: "session \<Rightarrow> json \<Rightarrow> py_error + bool" where
  "feedback_correct s q_data =
     (let last_answer = dict_get_default (user_answers s) (current_question s) (JString [])
      in and_then (py_key q_data (ustr ''answer'')) (\<lambda>correct_answer.
           Inr (py_eq last_answer correct_answer)))"

text \<open>Lines 177-179: the answer form was submitted with the radio widget's value.\<close>

definition check_answer :: "json \<Rightarrow> session \<Rightarrow> session" where
  "check_answer user_choice s =
     s\<lparr>user_answers := (user_answers s)(current_question s \<mapsto> user_choice),
       state := show_feedback\<rparr>"

text \<open>Lines 196-203: the button under the feedback was pressed; \<open>n\<close> is
  \<^verbatim>\<open>len(st.session_state.questions)\<close>.\<close>

definition next_question :: "nat \<Rightarrow> session \<Rightarrow> session" where
  "next_question n s =
     (let is_last_question = (current_question s + 1 = int n)
      in if \<not> is_last_question
         then s\<lparr>current_question := current_question s + 1, state := quiz_started\<rparr>
         else s\<lparr>state := finished\<rparr>)"

text \<open>
  What the user did to trigger a run of the script. \<open>Upload\<close> carries what the
  gateway meets for the uploaded file; \<open>Upload_Unsaved\<close> is an upload whose file cannot
  be written to the \<^verbatim>\<open>uploads\<close> directory (lines 115-118 raise); \<open>Check_Answer\<close> carries
  the value of the radio widget; \<open>Rerun\<close> is a run that no widget triggered.
\<close>

datatype event =
    Upload secrets ai_call
  | Upload_Unsaved pystr
  | Jump pystr
  | Check_Answer json
  | Next_Button
  | New_Quiz
  | Rerun

text \<open>
  How a run ends: at the end of the script or at a \<^verbatim>\<open>return\<close> (\<open>Done\<close>), or in
  \<^verbatim>\<open>st.rerun()\<close> (\<open>Restart\<close>), which stops the run and starts the script again.
\<close>

datatype outcome = Done session | Restart session

fun session_of :: "outcome \<Rightarrow> session" where
  "session_of (Done s) = s"
| "session_of (Restart s) = s"

text \<open>
  Lines 150-204: one run of the script in the states \<^verbatim>\<open>quiz_started\<close> and
  \<^verbatim>\<open>show_feedback\<close>. Only the widget of the current state can have fired.
\<close>

definition quiz_run :: "event \<Rightarrow> session \<Rightarrow> py_error + outcome" where
  "quiz_run ev s =
     and_then (quiz_view s) (\<lambda>(q_data, choices).
       if state s = quiz_started then
         and_then (previous_answer_index s choices) (\<lambda>i.
         and_then (check_index (length choices) (int i)) (\<lambda>u.
           case ev of
             Check_Answer user_choice \<Rightarrow> Inr (Restart (check_answer user_choice s))
           | _ \<Rightarrow> Inr (Done s)))
       else
         and_then (check_index (length choices)
                     (int (default_index s choices))) (\<lambda>u.
         and_then (feedback_correct s q_data) (\<lambda>verdict.
         and_then (py_len (questions s)) (\<lambda>n.
           case ev of
             Next_Button \<Rightarrow> Inr (Restart (next_question n s))
           | _ \<Rightarrow> Inr (Done s)))))"

text \<open>
  One run of \<^verbatim>\<open>main\<close>. A changed selector runs its callback before the script; the
  selector exists only in the two quiz states. In state \<^verbatim>\<open>initial\<close> an upload stores the
  gateway's result, whatever it is, and starts the quiz when it is true (lines 121-127);
  an exception that leaves the gateway leaves \<^verbatim>\<open>main\<close>. In state \<^verbatim>\<open>finished\<close> the
  button deletes every key, so that the next run starts afresh (lines 145-147 and
  101-105).
\<close>

definition main :: "(int \<Rightarrow> nat option) \<Rightarrow> event \<Rightarrow> session \<Rightarrow> py_error + outcome" where
  "main nd ev s =
     (case state s of
        initial \<Rightarrow>
          (case ev of
             Upload sec call \<Rightarrow>
               and_then (fst (parse_quiz_file_with_ai sec call)) (\<lambda>result.
                 if py_truthy result
                 then Inr (Restart (s\<lparr>questions := result, state := quiz_started\<rparr>))
                 else Inr (Done (s\<lparr>questions := result\<rparr>)))
           | Upload_Unsaved msg \<Rightarrow> Inl (OSError msg)
           | _ \<Rightarrow> Inr (Done s))
      | finished \<Rightarrow>
          and_then (finished_view s) (\<lambda>shown.
            case ev of New_Quiz \<Rightarrow> Inr (Restart init_session) | _ \<Rightarrow> Inr (Done s))
      | _ \<Rightarrow>
          (case ev of
             Jump sel \<Rightarrow> and_then (jump_to_question nd sel s) (quiz_run Rerun)
           | _ \<Rightarrow> quiz_run ev s))"

text \<open>
  A sequence of user actions: each triggers a run, and a run that ends in
  \<^verbatim>\<open>st.rerun()\<close> is followed by a run that no widget triggered. An uncaught exception
  ends the sequence.
\<close>

fun run :: "(int \<Rightarrow> nat option) \<Rightarrow> event list \<Rightarrow> session \<Rightarrow> py_error + session" where
  "run nd [] s = Inr s"
| "run nd (ev # evs) s =
     and_then (main nd ev s) (\<lambda>oc.
       case oc of
         Done s' \<Rightarrow> run nd evs s'
       | Restart s' \<Rightarrow> and_then (main nd Rerun s') (\<lambda>oc'. run nd evs (session_of oc')))"

section \<open>Stores of the prescribed shape\<close>

text \<open>
  The prompt asks the service for an array of objects with a text \<^verbatim>\<open>question\<close>, a list
  of texts \<^verbatim>\<open>options\<close> and a text \<^verbatim>\<open>answer\<close>. A store of that shape is read as a list
  of such items; further keys are ignored, as the session code never reads them.
\<close>

record quiz_item =
  question :: pystr
  options :: "pystr list"
  answer :: pystr

definition as_text :: "json \<Rightarrow> pystr option" where
  "as_text v = (case v of JString x \<Rightarrow> Some x | _ \<Rightarrow> None)"

fun those_opt :: "'a option list \<Rightarrow> 'a list option" where
  "those_opt [] = Some []"
| "those_opt (x # xs) =
     (case x of
        None \<Rightarrow> None
      | Some y \<Rightarrow> (case those_opt xs of None \<Rightarrow> None | Some ys \<Rightarrow> Some (y # ys)))"

definition as_item :: "json \<Rightarrow> quiz_item option" where
  "as_item v =
     (case v of
        JObject ps \<Rightarrow>
          (case (map_of ps (ustr ''question''), map_of ps (ustr ''options''),
                 map_of ps (ustr ''answer'')) of
             (Some (JString q), Some (JArray os), Some (JString a)) \<Rightarrow>
               (case those_opt (map as_text os) of
                  None \<Rightarrow> None
                | Some opts \<Rightarrow> Some \<lparr>question = q, options = opts, answer = a\<rparr>)
           | _ \<Rightarrow> None)
      | _ \<Rightarrow> None)"

definition as_store :: "json \<Rightarrow> quiz_item list option" where
  "as_store v = (case v of JArray xs \<Rightarrow> those_opt (map as_item xs) | _ \<Rightarrow> None)"

section \<open>An auxiliary notion for the cleaning of the reply\<close>


section \<open>Facts about the primitives\<close>

lemma and_then_simps [simp]:
  "and_then (Inl e) f = Inl e"
  "and_then (Inr x) f = f x"
  by (simp_all add: and_then_def)

lemma is_digit_digit_char: "d < 10 \<Longrightarrow> is_digit (digit_char d)"
  by (simp add: is_digit_def digit_char_def)

lemma digit_val_digit_char: "digit_val (digit_char d) = int d"
  by (simp add: digit_val_def digit_char_def)

lemma py_str_digits: "list_all is_digit (py_str n)"
proof (induction n rule: py_str.induct)
  case (1 n)
  show ?case
  proof (cases "n < 10")
    case True
    then show ?thesis by (subst py_str.simps) (simp add: is_digit_digit_char)
  next
    case False
    with "1.IH" have "list_all is_digit (py_str (n div 10))" by simp
    with False show ?thesis by (subst py_str.simps) (simp add: is_digit_digit_char)
  qed
qed

lemma py_str_nonempty: "py_str n \<noteq> []"
  by (subst py_str.simps) simp

lemma int_digits_all_digits:
  "list_all is_digit cs \<Longrightarrow>
   int_digits acc cs = Some (foldl (\<lambda>a c. 10 * a + digit_val c) acc cs)"
  by (induction acc cs rule: int_digits.induct) (auto simp: is_digit_def)

lemma int_literal_all_digits:
  "cs \<noteq> [] \<Longrightarrow> list_all is_digit cs \<Longrightarrow>
   int_literal cs = Some (foldl (\<lambda>a c. 10 * a + digit_val c) 0 cs)"
  by (cases cs) (simp_all add: int_literal_def int_digits_all_digits)

lemma py_str_value: "foldl (\<lambda>a c. 10 * a + digit_val c) 0 (py_str n) = int n"
proof (induction n rule: py_str.induct)
  case (1 n)
  show ?case
  proof (cases "n < 10")
    case True
    then show ?thesis by (subst py_str.simps) (simp add: digit_val_digit_char)
  next
    case False
    with "1.IH" have "foldl (\<lambda>a c. 10 * a + digit_val c) 0 (py_str (n div 10)) = int (n div 10)"
      by simp
    with False show ?thesis
      by (subst py_str.simps) (simp add: digit_val_digit_char zdiv_int zmod_int)
  qed
qed

lemma strip_no_space:
  assumes "list_all (\<lambda>c. \<not> P c) s"
  shows "rev (dropWhile P (rev (dropWhile P s))) = s"
proof -
  have "dropWhile P s = s" using assms by (cases s) auto
  moreover have "list_all (\<lambda>c. \<not> P c) (rev s)" using assms by (simp add: list_all_iff)
  then have "dropWhile P (rev s) = rev s" by (cases "rev s") auto
  ultimately show ?thesis by simp
qed

lemma py_int_py_str: "py_int nd (py_str n) = Inr (int n)"
proof -
  let ?s = "py_str n"
  have d: "list_all is_digit ?s" by (rule py_str_digits)
  have ne: "?s \<noteq> []" by (rule py_str_nonempty)
  from d have ascii: "list_all (\<lambda>c. c < 128) ?s"
    by (auto simp: list_all_iff is_digit_def)
  from d have "list_all (\<lambda>c. \<not> ascii_space c) ?s"
    by (auto simp: list_all_iff is_digit_def ascii_space_def)
  then have strip: "rev (dropWhile ascii_space (rev (dropWhile ascii_space ?s))) = ?s"
    by (rule strip_no_space)
  from d ne have "is_digit (hd ?s)" by (cases ?s) simp_all
  then have sign: "hd ?s \<noteq> ord CHR ''-'' \<and> hd ?s \<noteq> ord CHR ''+''"
    by (auto simp: is_digit_def)
  have "int_literal ?s = Some (int n)"
    using int_literal_all_digits [OF ne d] by (simp add: py_str_value)
  with ascii strip sign show ?thesis by (simp add: py_int_def Let_def)
qed

lemma split_acc_no_sep:
  "sep \<notin> set cs \<Longrightarrow> split_acc sep acc cs = [rev acc @ cs]"
  by (induction cs arbitrary: acc) auto

lemma split_acc_append:
  "sep \<notin> set xs \<Longrightarrow> split_acc sep acc (xs @ sep # ys) = (rev acc @ xs) # split_acc sep [] ys"
  by (induction xs arbitrary: acc) auto

lemma py_split_question:
  "py_split 32 (ustr ''Question '' @ py_str n) = [ustr ''Question'', py_str n]"
proof -
  have "32 \<notin> set (py_str n)"
    using py_str_digits [of n] by (auto simp: list_all_iff is_digit_def)
  then have "split_acc 32 [] (py_str n) = [py_str n]" by (simp add: split_acc_no_sep)
  moreover have "ustr ''Question '' @ py_str n = ustr ''Question'' @ 32 # py_str n" by simp
  moreover have "32 \<notin> set (ustr ''Question'')" by simp
  ultimately show ?thesis
    unfolding py_split_def
    using split_acc_append [of 32 "ustr ''Question''" "[]" "py_str n"] by simp
qed

lemma jump_to_question_entry:
  "jump_to_question nd (ustr ''Question '' @ py_str (i + 1)) s =
     Inr (s\<lparr>current_question := int i, state := quiz_started\<rparr>)"
  by (simp only: jump_to_question_def py_split_question)
     (simp add: py_getitem_def py_int_py_str)

lemma jumper_options_nth:
  "i < n \<Longrightarrow> jumper_options n ! i = ustr ''Question '' @ py_str (i + 1)"
  by (simp add: jumper_options_def)

lemma jumper_options_mem:
  "sel \<in> set (jumper_options n) \<longleftrightarrow> (\<exists>i < n. sel = ustr ''Question '' @ py_str (i + 1))"
  by (auto simp: jumper_options_def)

lemma py_getitem_in_range:
  "0 \<le> i \<Longrightarrow> i < int (length xs) \<Longrightarrow> py_getitem xs i = Inr (xs ! nat i)"
  by (simp add: py_getitem_def)

section \<open>Facts about stores of the prescribed shape\<close>

lemma those_opt_Some:
  "those_opt xs = Some ys \<Longrightarrow> length ys = length xs \<and> (\<forall>i < length xs. xs ! i = Some (ys ! i))"
proof (induction xs arbitrary: ys)
  case Nil
  then show ?case by simp
next
  case (Cons x xs)
  then show ?case
    by (auto split: option.splits simp: nth_Cons split: nat.splits)
qed

lemma those_opt_map_Some: "those_opt (map Some xs) = Some xs"
  by (induction xs) simp_all

lemma as_text_Some: "as_text v = Some x \<longleftrightarrow> v = JString x"
  by (cases v) (auto simp: as_text_def)

lemma those_opt_as_text:
  "those_opt (map as_text os) = Some opts \<Longrightarrow> os = map JString opts"
proof (induction os arbitrary: opts)
  case Nil
  then show ?case by simp
next
  case (Cons v os)
  then show ?case by (auto split: option.splits simp: as_text_Some)
qed

lemma as_item_keys:
  assumes "as_item v = Some q"
  shows "py_key v (ustr ''question'') = Inr (JString (question q))"
    and "py_key v (ustr ''options'') = Inr (JArray (map JString (options q)))"
    and "py_key v (ustr ''answer'') = Inr (JString (answer q))"
  using assms
  by (auto simp: as_item_def py_key_def dest: those_opt_as_text
      split: json.splits option.splits)

lemmas as_item_keys' = as_item_keys [simplified]

lemma as_store_array:
  assumes "as_store v = Some qs"
  shows "\<exists>xs. v = JArray xs \<and> those_opt (map as_item xs) = Some qs \<and>
           length xs = length qs \<and> (\<forall>i < length qs. as_item (xs ! i) = Some (qs ! i))"
proof -
  from assms obtain xs where v: "v = JArray xs" and t: "those_opt (map as_item xs) = Some qs"
    by (auto simp: as_store_def split: json.splits)
  from those_opt_Some [OF t] v t show ?thesis by simp
qed

lemma py_same_text: "py_same v (JString t) \<longleftrightarrow> v = JString t"
  by (cases v) (auto simp: atom_same_def num_val_def split: pyfloat.splits)

lemma py_eq_text: "py_eq v (JString t) \<longleftrightarrow> v = JString t"
  by (auto simp: py_eq_def py_same_text)

lemma truthy_texts: "filter py_truthy (map JString opts) = map JString (filter (\<lambda>opt. opt \<noteq> []) opts)"
  by (induction opts) (simp_all add: py_truthy_def)

lemma py_index_found:
  "py_in x xs \<Longrightarrow> \<exists>k < length xs. py_index xs x = Inr k \<and> py_same (xs ! k) x"
proof (induction xs)
  case Nil
  then show ?case by (simp add: py_in_def)
next
  case (Cons y ys)
  show ?case
  proof (cases "py_same y x")
    case True
    then show ?thesis by simp
  next
    case False
    with Cons.prems have "py_in x ys" by (simp add: py_in_def)
    from Cons.IH [OF this] obtain k where "k < length ys" "py_index ys x = Inr k"
      "py_same (ys ! k) x" by blast
    with False show ?thesis by auto
  qed
qed

lemma py_index_bound: "py_index xs x = Inr k \<Longrightarrow> k < length xs"
proof (induction xs arbitrary: k)
  case Nil
  then show ?case by simp
next
  case (Cons y ys)
  show ?case
  proof (cases "py_same y x")
    case True
    with Cons.prems show ?thesis by simp
  next
    case False
    with Cons.prems obtain j where "py_index ys x = Inr j" "k = Suc j"
      by (cases "py_index ys x") auto
    with Cons.IH show ?thesis by simp
  qed
qed

lemma py_in_texts: "py_in (JString a) (map JString opts) \<longleftrightarrow> a \<in> set opts"
  by (induction opts) (auto simp: py_in_def py_same.simps atom_same_def num_val_def)

lemma check_index_ok: "i = 0 \<or> (0 \<le> i \<and> i < int n) \<Longrightarrow> check_index n i = Inr ()"
  by (auto simp: check_index_def)

lemma previous_answer_index_ok:
  "\<exists>k. previous_answer_index s vo = Inr k \<and> check_index (length vo) (int k) = Inr ()"
proof (cases "py_in (dict_get (user_answers s) (current_question s)) vo")
  case True
  from py_index_found [OF this] obtain k where "k < length vo"
    "py_index vo (dict_get (user_answers s) (current_question s)) = Inr k" by blast
  with True show ?thesis
    by (simp add: previous_answer_index_def Let_def check_index_ok)
next
  case False
  then show ?thesis by (simp add: previous_answer_index_def Let_def check_index_ok)
qed

lemma default_index_ok: "check_index (length vo) (int (default_index s vo)) = Inr ()"
  by (auto simp: default_index_def check_index_ok split: sum.splits dest: py_index_bound)

text \<open>The view of the current question for a store of the prescribed shape.\<close>

lemma valid_options_typed:
  assumes "as_item q_data = Some q"
  shows "valid_options q_data = Inr (map JString (filter (\<lambda>opt. opt \<noteq> []) (options q)))"
  by (simp add: valid_options_def as_item_keys' [OF assms] py_iter_def truthy_texts)

lemma quiz_view_typed:
  assumes "as_store (questions s) = Some qs"
    and "0 \<le> current_question s" and "current_question s < int (length qs)"
  shows "\<exists>q_data. as_item q_data = Some (qs ! nat (current_question s)) \<and>
           py_item (questions s) (current_question s) = Inr q_data \<and>
           quiz_view s =
             Inr (q_data,
                  map JString (filter (\<lambda>opt. opt \<noteq> []) (options (qs ! nat (current_question s)))))"
proof -
  from as_store_array [OF assms(1)] obtain xs where
    xs: "questions s = JArray xs" "length xs = length qs"
    and item: "\<forall>i < length qs. as_item (xs ! i) = Some (qs ! i)"
    by blast
  let ?i = "nat (current_question s)"
  have i: "?i < length qs" using assms(2,3) by simp
  have q: "as_item (xs ! ?i) = Some (qs ! ?i)" using i item by simp
  have get: "py_item (questions s) (current_question s) = Inr (xs ! ?i)"
    using assms(2,3) xs by (simp add: py_item_def py_getitem_in_range)
  have len: "py_len (questions s) = Inr (length qs)" using xs by (simp add: py_len_def)
  have chk: "check_index (length qs) (current_question s) = Inr ()"
    using assms(2,3) by (simp add: check_index_def)
  have "quiz_view s =
          Inr (xs ! ?i, map JString (filter (\<lambda>opt. opt \<noteq> []) (options (qs ! ?i))))"
    by (simp add: quiz_view_def get len chk as_item_keys' [OF q] valid_options_typed [OF q])
  with q get show ?thesis by blast
qed

lemma feedback_correct_typed:
  assumes "as_item q_data = Some q"
  shows "feedback_correct s q_data =
           Inr (dict_get_default (user_answers s) (current_question s) (JString []) =
                JString (answer q))"
  by (simp add: feedback_correct_def Let_def as_item_keys' [OF assms] py_eq_text)

lemma quiz_run_typed:
  assumes "as_store (questions s) = Some qs"
    and "0 \<le> current_question s" and "current_question s < int (length qs)"
  shows "quiz_run ev s =
     Inr (case ev of
            Check_Answer c \<Rightarrow>
              if state s = quiz_started then Restart (check_answer c s) else Done s
          | Next_Button \<Rightarrow>
              if state s = quiz_started then Done s
              else Restart (next_question (length qs) s)
          | _ \<Rightarrow> Done s)"
proof -
  from quiz_view_typed [OF assms] obtain q_data where
    q: "as_item q_data = Some (qs ! nat (current_question s))" and
    view: "quiz_view s =
             Inr (q_data,
                  map JString (filter (\<lambda>opt. opt \<noteq> []) (options (qs ! nat (current_question s)))))"
    by blast
  let ?vo = "map JString (filter (\<lambda>opt. opt \<noteq> []) (options (qs ! nat (current_question s))))"
  from previous_answer_index_ok [of s ?vo] obtain k where
    k: "previous_answer_index s ?vo = Inr k" "check_index (length ?vo) (int k) = Inr ()"
    by blast
  have d: "check_index (length ?vo) (int (default_index s ?vo)) = Inr ()"
    by (rule default_index_ok)
  from as_store_array [OF assms(1)] have len: "py_len (questions s) = Inr (length qs)"
    by (auto simp: py_len_def)
  show ?thesis
  proof (cases "state s = quiz_started")
    case True
    then show ?thesis
      unfolding quiz_run_def view using k by (cases ev) simp_all
  next
    case False
    then show ?thesis
      unfolding quiz_run_def view using d len feedback_correct_typed [OF q, of s]
      by (cases ev) simp_all
  qed
qed

lemma check_answer_fields:
  "questions (check_answer c s) = questions s"
  "current_question (check_answer c s) = current_question s"
  "state (check_answer c s) = show_feedback"
  "user_answers (check_answer c s) = (user_answers s)(current_question s \<mapsto> c)"
  by (simp_all add: check_answer_def)

lemma next_question_fields:
  "questions (next_question n s) = questions s"
  "user_answers (next_question n s) = user_answers s"
  "current_question (next_question n s) =
     (if current_question s + 1 = int n then current_question s else current_question s + 1)"
  "state (next_question n s) =
     (if current_question s + 1 = int n then finished else quiz_started)"
  by (simp_all add: next_question_def Let_def)

text \<open>The score and the review list for a store of the prescribed shape.\<close>

lemma score_from_typed:
  "those_opt (map as_item xs) = Some qs \<Longrightarrow>
   score_from answers i xs =
     Inr (length (filter (\<lambda>(j, q). dict_get answers (i + int j) = JString (answer q))
                    (enumerate 0 qs)))"
proof (induction xs arbitrary: qs i)
  case Nil
  then show ?case by simp
next
  case (Cons x xs)
  from Cons.prems obtain q qs' where q: "as_item x = Some q"
    and qs': "those_opt (map as_item xs) = Some qs'" and qs: "qs = q # qs'"
    by (auto split: option.splits)
  have shift: "filter (\<lambda>(j, q). dict_get answers (i + int j) = JString (answer q))
                 (enumerate (Suc 0) qs') =
               map (\<lambda>(j, q). (Suc j, q))
                 (filter (\<lambda>(j, q). dict_get answers (i + 1 + int j) = JString (answer q))
                    (enumerate 0 qs'))"
    by (simp add: enumerate_Suc_eq filter_map comp_def case_prod_unfold add.assoc
        apfst_def map_prod_def)
  show ?case
    unfolding qs
    by (simp add: as_item_keys' [OF q] Cons.IH [OF qs'] py_eq_text shift)
qed

lemma score_typed:
  assumes "as_store (questions s) = Some qs"
  shows "score s =
     Inr (length (filter (\<lambda>(j, q). dict_get (user_answers s) (int j) = JString (answer q))
                    (enumerate 0 qs)))"
proof -
  from assms obtain xs where xs: "questions s = JArray xs"
    and t: "those_opt (map as_item xs) = Some qs"
    by (auto simp: as_store_def split: json.splits)
  show ?thesis
    using score_from_typed [OF t, of "user_answers s" 0]
    by (simp add: score_def xs py_iter_def)
qed

lemma review_from_typed:
  "those_opt (map as_item xs) = Some qs \<Longrightarrow> \<exists>marks. review_from answers i xs = Inr marks"
proof (induction xs arbitrary: qs i)
  case Nil
  then show ?case by simp
next
  case (Cons x xs)
  from Cons.prems obtain q qs' where q: "as_item x = Some q"
    and qs': "those_opt (map as_item xs) = Some qs'"
    by (auto split: option.splits)
  from Cons.IH [OF qs', of "i + 1"] obtain marks where
    "review_from answers (i + 1) xs = Inr marks" by blast
  then show ?case by (simp add: Let_def as_item_keys' [OF q])
qed

lemma finished_view_typed:
  assumes "as_store (questions s) = Some qs"
  shows "\<exists>shown. finished_view s = Inr shown"
proof -
  from assms obtain xs where xs: "questions s = JArray xs"
    and t: "those_opt (map as_item xs) = Some qs"
    by (auto simp: as_store_def split: json.splits)
  from review_from_typed [OF t, of "user_answers s" 0] obtain marks where
    "review_from (user_answers s) 0 xs = Inr marks" by blast
  then show ?thesis
    by (simp add: finished_view_def score_typed [OF assms] review_def xs py_iter_def py_len_def)
qed

text \<open>Runs of \<^verbatim>\<open>main\<close> on a store of the prescribed shape.\<close>

lemma main_quiz_typed:
  assumes "state s = quiz_started \<or> state s = show_feedback"
    and "as_store (questions s) = Some qs"
    and "0 \<le> current_question s" and "current_question s < int (length qs)"
  shows "main nd (Check_Answer c) s =
           Inr (if state s = quiz_started then Restart (check_answer c s) else Done s)"
    and "main nd Next_Button s =
           Inr (if state s = quiz_started then Done s
                else Restart (next_question (length qs) s))"
    and "main nd Rerun s = Inr (Done s)"
  using assms(1) by (auto simp: main_def quiz_run_typed [OF assms(2-4)])

lemma main_rerun_typed:
  assumes "as_store (questions s) = Some qs"
    and "0 \<le> current_question s" and "current_question s < int (length qs)"
  shows "main nd Rerun s = Inr (Done s)"
proof (cases "state s")
  case initial
  then show ?thesis by (simp add: main_def)
next
  case quiz_started
  then show ?thesis using main_quiz_typed(3) [OF _ assms] by simp
next
  case show_feedback
  then show ?thesis using main_quiz_typed(3) [OF _ assms] by simp
next
  case finished
  with finished_view_typed [OF assms(1)] show ?thesis by (auto simp: main_def)
qed

lemma main_jump_entry:
  assumes "state s = quiz_started \<or> state s = show_feedback"
    and "as_store (questions s) = Some qs" and "i < length qs"
  shows "main nd (Jump (ustr ''Question '' @ py_str (i + 1))) s =
           Inr (Done (s\<lparr>current_question := int i, state := quiz_started\<rparr>))"
proof -
  let ?s' = "s\<lparr>current_question := int i, state := quiz_started\<rparr>"
  have "quiz_run Rerun ?s' = Inr (Done ?s')"
    using assms(2,3) by (subst quiz_run_typed [where qs = qs]) simp_all
  with assms(1) show ?thesis
    by (auto simp only: main_def jump_to_question_entry phase.case event.case and_then_simps)
qed

lemma run_single:
  assumes "main nd ev s = Inr oc" and "main nd Rerun (session_of oc) = Inr (Done (session_of oc))"
  shows "run nd (ev # evs) s = run nd evs (session_of oc)"
  using assms by (cases oc) simp_all

lemma run_single_done:
  assumes "main nd ev s = Inr (Done s')"
  shows "run nd (ev # evs) s = run nd evs s'"
  using assms by simp

section \<open>Facts about the cleaning of the reply\<close>















section \<open>The session claims\<close>

text \<open>
  Claim C3. On a non-empty store of the prescribed shape, when the current index is
  within the store, it is still within the store after a submitted answer, after the
  button under the feedback, and after a jump to any entry the selector offers; none of
  them raises, in the run itself or in the run that \<^verbatim>\<open>st.rerun()\<close> starts, and the
  store is unchanged.
\<close>

theorem main_keeps_index_in_range:
  assumes "as_store (questions s) = Some qs"
    and "0 \<le> current_question s" and "current_question s < int (length qs)"
    and "ev = Check_Answer c \<or> ev = Next_Button \<or>
         (ev = Jump sel \<and> sel \<in> set (jumper_options (length qs)))"
  shows "\<exists>oc s'. main nd ev s = Inr oc \<and> session_of oc = s' \<and> run nd [ev] s = Inr s' \<and>
           questions s' = questions s \<and>
           0 \<le> current_question s' \<and> current_question s' < int (length qs)"
proof -
  have step: "\<exists>oc. main nd ev s = Inr oc \<and> questions (session_of oc) = questions s \<and>
           0 \<le> current_question (session_of oc) \<and>
           current_question (session_of oc) < int (length qs)"
  proof (cases "state s = quiz_started \<or> state s = show_feedback")
    case quiz: True
    from assms(4) consider (check) "ev = Check_Answer c" | (nxt) "ev = Next_Button"
      | (jump) "ev = Jump sel" "sel \<in> set (jumper_options (length qs))" by blast
    then show ?thesis
    proof cases
      case check
      then show ?thesis
        using assms(2,3) by (simp add: main_quiz_typed(1) [OF quiz assms(1-3)] check_answer_fields)
    next
      case nxt
      then show ?thesis
        using assms(2,3) by (simp add: main_quiz_typed(2) [OF quiz assms(1-3)] next_question_fields)
    next
      case jump
      then obtain i where i: "i < length qs" "sel = ustr ''Question '' @ py_str (i + 1)"
        by (auto simp: jumper_options_mem)
      from main_jump_entry [OF quiz assms(1) i(1)] show ?thesis
        unfolding jump(1) i(2) using i(1) by simp
    qed
  next
    case False
    then consider (ini) "state s = initial" | (fin) "state s = finished"
      by (cases "state s") auto
    then show ?thesis
    proof cases
      case ini
      with assms(2-4) show ?thesis by (auto simp: main_def)
    next
      case fin
      with finished_view_typed [OF assms(1)] assms(2-4) show ?thesis by (auto simp: main_def)
    qed
  qed
  then obtain oc where oc: "main nd ev s = Inr oc" "questions (session_of oc) = questions s"
    "0 \<le> current_question (session_of oc)" "current_question (session_of oc) < int (length qs)"
    by blast
  have "main nd Rerun (session_of oc) = Inr (Done (session_of oc))"
    using assms(1) oc(2-4) by (intro main_rerun_typed [where qs = qs]) simp_all
  from run_single [OF oc(1) this, of "[]"] have "run nd [ev] s = Inr (session_of oc)"
    by simp
  with oc show ?thesis by blast
qed

theorem main_keeps_index_in_range_witness:
  "as_store
     (questions
        (init_session\<lparr>state := show_feedback,
           questions :=
             JArray [JObject [(ustr ''question'', JString (ustr ''2+2?'')),
                              (ustr ''options'', JArray [JString (ustr ''3''), JString (ustr ''4'')]),
                              (ustr ''answer'', JString (ustr ''4''))],
                     JObject [(ustr ''question'', JString (ustr ''Q'')),
                              (ustr ''options'', JArray [JString (ustr ''A''), JString [], JString (ustr ''B'')]),
                              (ustr ''answer'', JString (ustr ''B''))]]\<rparr>)) =
     Some [\<lparr>question = ustr ''2+2?'', options = [ustr ''3'', ustr ''4''], answer = ustr ''4''\<rparr>,
           \<lparr>question = ustr ''Q'', options = [ustr ''A'', [], ustr ''B''], answer = ustr ''B''\<rparr>] \<and>
   ustr ''Question 2'' \<in> set (jumper_options 2) \<and>
   map_sum id current_question
     (run (\<lambda>c. None) [Jump (ustr ''Question 2'')]
        (init_session\<lparr>state := show_feedback,
           questions :=
             JArray [JObject [(ustr ''question'', JString (ustr ''2+2?'')),
                              (ustr ''options'', JArray [JString (ustr ''3''), JString (ustr ''4'')]),
                              (ustr ''answer'', JString (ustr ''4''))],
                     JObject [(ustr ''question'', JString (ustr ''Q'')),
                              (ustr ''options'', JArray [JString (ustr ''A''), JString [], JString (ustr ''B'')]),
                              (ustr ''answer'', JString (ustr ''B''))]]\<rparr>)) = Inr 1 \<and>
   map_sum id (\<lambda>s. (state s, current_question s))
     (run (\<lambda>c. None) [Next_Button]
        (init_session\<lparr>state := show_feedback,
           questions :=
             JArray [JObject [(ustr ''question'', JString (ustr ''2+2?'')),
                              (ustr ''options'', JArray [JString (ustr ''3''), JString (ustr ''4'')]),
                              (ustr ''answer'', JString (ustr ''4''))],
                     JObject [(ustr ''question'', JString (ustr ''Q'')),
                              (ustr ''options'', JArray [JString (ustr ''A''), JString [], JString (ustr ''B'')]),
                              (ustr ''answer'', JString (ustr ''B''))]]\<rparr>)) = Inr (quiz_started, 1)"
proof -
  let ?s = "init_session\<lparr>state := show_feedback,
              questions :=
                JArray [JObject [(ustr ''question'', JString (ustr ''2+2?'')),
                                 (ustr ''options'', JArray [JString (ustr ''3''), JString (ustr ''4'')]),
                                 (ustr ''answer'', JString (ustr ''4''))],
                        JObject [(ustr ''question'', JString (ustr ''Q'')),
                                 (ustr ''options'', JArray [JString (ustr ''A''), JString [], JString (ustr ''B'')]),
                                 (ustr ''answer'', JString (ustr ''B''))]]\<rparr>"
  let ?qs = "[\<lparr>question = ustr ''2+2?'', options = [ustr ''3'', ustr ''4''], answer = ustr ''4''\<rparr>,
              \<lparr>question = ustr ''Q'', options = [ustr ''A'', [], ustr ''B''], answer = ustr ''B''\<rparr>]"
  have h1: "as_store (questions ?s) = Some ?qs" by code_simp
  have h2: "0 \<le> current_question ?s" by (simp add: init_session_def)
  have h3: "current_question ?s < int (length ?qs)" by (simp add: init_session_def)
  have h4: "ustr ''Question 2'' \<in> set (jumper_options 2)" by code_simp
  have len: "length ?qs = 2" by simp
  have ev: "Jump (ustr ''Question 2'') = Check_Answer JNull \<or>
            Jump (ustr ''Question 2'') = Next_Button \<or>
            (Jump (ustr ''Question 2'') = Jump (ustr ''Question 2'') \<and>
             ustr ''Question 2'' \<in> set (jumper_options (length ?qs)))"
    unfolding len using h4 by (intro disjI2 conjI refl)
  have c1: "map_sum id current_question (run (\<lambda>c. None) [Jump (ustr ''Question 2'')] ?s) = Inr 1"
    by code_simp
  have c2: "map_sum id (\<lambda>s. (state s, current_question s)) (run (\<lambda>c. None) [Next_Button] ?s) =
            Inr (quiz_started, 1)"
    by code_simp
  from main_keeps_index_in_range [OF h1 h2 h3 ev, of "\<lambda>c. None"] h1 h4 c1 c2 show ?thesis
    by simp
qed

text \<open>
  Claim C4. On a store of the prescribed shape, in the feedback view the verdict
  compares the stored answer of the current question with its answer text, as texts.
  The button then leads to the answer form of the next question when there is one, and
  to the final view otherwise; the index never leaves the store, the ledger is
  unchanged, and neither the run nor the run that \<^verbatim>\<open>st.rerun()\<close> starts raises.
\<close>

theorem advance_from_feedback:
  assumes "state s = show_feedback" and "as_store (questions s) = Some qs"
    and "0 \<le> current_question s" and "current_question s < int (length qs)"
  shows "(\<exists>q_data. py_item (questions s) (current_question s) = Inr q_data \<and>
            (\<forall>a. user_answers s (current_question s) = Some a \<longrightarrow>
               feedback_correct s q_data =
                 Inr (a = JString (answer (qs ! nat (current_question s)))))) \<and>
         (\<exists>s'. main nd Next_Button s = Inr (Restart s') \<and>
            run nd [Next_Button] s = Inr s' \<and>
            questions s' = questions s \<and> user_answers s' = user_answers s \<and>
            (if current_question s + 1 < int (length qs)
             then state s' = quiz_started \<and> current_question s' = current_question s + 1
             else state s' = finished \<and> current_question s' = current_question s) \<and>
            0 \<le> current_question s' \<and> current_question s' < int (length qs))"
proof (rule conjI)
  from quiz_view_typed [OF assms(2-4)] obtain q_data where
    q: "as_item q_data = Some (qs ! nat (current_question s))" and
    get: "py_item (questions s) (current_question s) = Inr q_data"
    by blast
  have "\<forall>a. user_answers s (current_question s) = Some a \<longrightarrow>
               feedback_correct s q_data =
                 Inr (a = JString (answer (qs ! nat (current_question s))))"
    by (simp add: feedback_correct_typed [OF q] dict_get_default_def)
  with get show "\<exists>q_data. py_item (questions s) (current_question s) = Inr q_data \<and>
            (\<forall>a. user_answers s (current_question s) = Some a \<longrightarrow>
               feedback_correct s q_data =
                 Inr (a = JString (answer (qs ! nat (current_question s)))))"
    by blast
next
  let ?s' = "next_question (length qs) s"
  have m: "main nd Next_Button s = Inr (Restart ?s')"
    using assms(1) by (simp add: main_quiz_typed(2) [OF _ assms(2-4)])
  have fields: "questions ?s' = questions s" "user_answers ?s' = user_answers s"
    "if current_question s + 1 < int (length qs)
     then state ?s' = quiz_started \<and> current_question ?s' = current_question s + 1
     else state ?s' = finished \<and> current_question ?s' = current_question s"
    "0 \<le> current_question ?s'" "current_question ?s' < int (length qs)"
    using assms(3,4) by (auto simp: next_question_fields)
  have "main nd Rerun ?s' = Inr (Done ?s')"
    using assms(2) fields(1,4,5) by (intro main_rerun_typed [where qs = qs]) simp_all
  with run_single [OF m, of "[]"] have r: "run nd [Next_Button] s = Inr ?s'" by simp
  from m r fields show "\<exists>s'. main nd Next_Button s = Inr (Restart s') \<and>
            run nd [Next_Button] s = Inr s' \<and>
            questions s' = questions s \<and> user_answers s' = user_answers s \<and>
            (if current_question s + 1 < int (length qs)
             then state s' = quiz_started \<and> current_question s' = current_question s + 1
             else state s' = finished \<and> current_question s' = current_question s) \<and>
            0 \<le> current_question s' \<and> current_question s' < int (length qs)"
    by blast
qed

theorem advance_from_feedback_witness:
  "state
     (init_session\<lparr>state := show_feedback,
       questions :=
         JArray [JObject [(ustr ''question'', JString (ustr ''2+2?'')),
                          (ustr ''options'', JArray [JString (ustr ''3''), JString (ustr ''4'')]),
                          (ustr ''answer'', JString (ustr ''4''))]],
       user_answers := [0 \<mapsto> JString (ustr ''4'')]\<rparr>) = show_feedback \<and>
   as_store
     (questions
        (init_session\<lparr>state := show_feedback,
          questions :=
            JArray [JObject [(ustr ''question'', JString (ustr ''2+2?'')),
                             (ustr ''options'', JArray [JString (ustr ''3''), JString (ustr ''4'')]),
                             (ustr ''answer'', JString (ustr ''4''))]],
          user_answers := [0 \<mapsto> JString (ustr ''4'')]\<rparr>)) =
     Some [\<lparr>question = ustr ''2+2?'', options = [ustr ''3'', ustr ''4''], answer = ustr ''4''\<rparr>] \<and>
   feedback_correct
     (init_session\<lparr>state := show_feedback,
       questions :=
         JArray [JObject [(ustr ''question'', JString (ustr ''2+2?'')),
                          (ustr ''options'', JArray [JString (ustr ''3''), JString (ustr ''4'')]),
                          (ustr ''answer'', JString (ustr ''4''))]],
       user_answers := [0 \<mapsto> JString (ustr ''4'')]\<rparr>)
     (JObject [(ustr ''question'', JString (ustr ''2+2?'')),
              (ustr ''options'', JArray [JString (ustr ''3''), JString (ustr ''4'')]),
              (ustr ''answer'', JString (ustr ''4''))]) = Inr True \<and>
   map_sum id (\<lambda>s. (state s, current_question s))
     (run (\<lambda>c. None) [Next_Button]
        (init_session\<lparr>state := show_feedback,
          questions :=
            JArray [JObject [(ustr ''question'', JString (ustr ''2+2?'')),
                             (ustr ''options'', JArray [JString (ustr ''3''), JString (ustr ''4'')]),
                             (ustr ''answer'', JString (ustr ''4''))]],
          user_answers := [0 \<mapsto> JString (ustr ''4'')]\<rparr>)) = Inr (finished, 0)"
proof -
  let ?s = "init_session\<lparr>state := show_feedback,
              questions :=
                JArray [JObject [(ustr ''question'', JString (ustr ''2+2?'')),
                                 (ustr ''options'', JArray [JString (ustr ''3''), JString (ustr ''4'')]),
                                 (ustr ''answer'', JString (ustr ''4''))]],
              user_answers := [0 \<mapsto> JString (ustr ''4'')]\<rparr>"
  let ?qs = "[\<lparr>question = ustr ''2+2?'', options = [ustr ''3'', ustr ''4''], answer = ustr ''4''\<rparr>]"
  have h1: "state ?s = show_feedback" by simp
  have h2: "as_store (questions ?s) = Some ?qs" by code_simp
  have h3: "0 \<le> current_question ?s" by (simp add: init_session_def)
  have h4: "current_question ?s < int (length ?qs)" by (simp add: init_session_def)
  have c1: "feedback_correct ?s
     (JObject [(ustr ''question'', JString (ustr ''2+2?'')),
              (ustr ''options'', JArray [JString (ustr ''3''), JString (ustr ''4'')]),
              (ustr ''answer'', JString (ustr ''4''))]) = Inr True"
    by code_simp
  have c2: "map_sum id (\<lambda>s. (state s, current_question s)) (run (\<lambda>c. None) [Next_Button] ?s) =
            Inr (finished, 0)"
    by code_simp
  from advance_from_feedback [OF h1 h2 h3 h4, of "(\<lambda>c. None)"] h1 h2 c1 c2 show ?thesis
    by blast
qed

text \<open>
  Claim C6. On a store of the prescribed shape, from either quiz view, selecting the
  entry of a valid index \<open>i\<close> leads to the answer form of question \<open>i\<close> and changes
  neither the ledger nor the store; an answer stored for \<open>i\<close> that is among the offered
  choices is the preselected choice; and selecting the same entry again changes nothing.
\<close>

theorem jump_lands_presenting:
  assumes "state s = quiz_started \<or> state s = show_feedback"
    and "as_store (questions s) = Some qs" and "i < length qs"
  shows "\<exists>s' q_data choices.
           main nd (Jump (jumper_options (length qs) ! i)) s = Inr (Done s') \<and>
           state s' = quiz_started \<and> current_question s' = int i \<and>
           user_answers s' = user_answers s \<and> questions s' = questions s \<and>
           quiz_view s' = Inr (q_data, choices) \<and>
           choices = map JString (filter (\<lambda>opt. opt \<noteq> []) (options (qs ! i))) \<and>
           (\<forall>a. JString a \<in> set choices \<and> user_answers s (int i) = Some (JString a) \<longrightarrow>
              (\<exists>k. previous_answer_index s' choices = Inr k \<and> choices ! k = JString a)) \<and>
           main nd (Jump (jumper_options (length qs) ! i)) s' = Inr (Done s')"
proof -
  let ?sel = "ustr ''Question '' @ py_str (i + 1)"
  let ?s' = "s\<lparr>current_question := int i, state := quiz_started\<rparr>"
  let ?choices = "map JString (filter (\<lambda>opt. opt \<noteq> []) (options (qs ! i)))"
  have sel: "jumper_options (length qs) ! i = ?sel" using assms(3) by (rule jumper_options_nth)
  have first: "main nd (Jump ?sel) s = Inr (Done ?s')" using assms by (rule main_jump_entry)
  have "main nd (Jump ?sel) ?s' = Inr (Done (?s'\<lparr>current_question := int i, state := quiz_started\<rparr>))"
    using assms(2,3) by (intro main_jump_entry [where qs = qs]) simp_all
  then have again: "main nd (Jump ?sel) ?s' = Inr (Done ?s')" by simp
  have "\<exists>q_data. as_item q_data = Some (qs ! nat (current_question ?s')) \<and>
           py_item (questions ?s') (current_question ?s') = Inr q_data \<and>
           quiz_view ?s' =
             Inr (q_data,
                  map JString (filter (\<lambda>opt. opt \<noteq> []) (options (qs ! nat (current_question ?s')))))"
    using assms(2,3) by (intro quiz_view_typed) simp_all
  then obtain q_data where view: "quiz_view ?s' = Inr (q_data, ?choices)" by auto
  have pre: "\<forall>a. JString a \<in> set ?choices \<and> user_answers s (int i) = Some (JString a) \<longrightarrow>
              (\<exists>k. previous_answer_index ?s' ?choices = Inr k \<and> ?choices ! k = JString a)"
  proof (intro allI impI, elim conjE)
    fix a
    assume mem: "JString a \<in> set ?choices" and stored: "user_answers s (int i) = Some (JString a)"
    from mem have "a \<in> set (filter (\<lambda>opt. opt \<noteq> []) (options (qs ! i)))" by auto
    then have isin: "py_in (JString a) ?choices" by (simp only: py_in_texts)
    from py_index_found [OF this] obtain k where
      k: "py_index ?choices (JString a) = Inr k" "py_same (?choices ! k) (JString a)"
      by blast
    from k(2) have "?choices ! k = JString a" by (simp only: py_same_text)
    moreover have "previous_answer_index ?s' ?choices = Inr k"
      using isin k(1) stored by (simp add: previous_answer_index_def dict_get_def)
    ultimately show "\<exists>k. previous_answer_index ?s' ?choices = Inr k \<and> ?choices ! k = JString a"
      by blast
  qed
  from first again view pre show ?thesis
    unfolding sel by (intro exI [of _ ?s'] exI [of _ q_data] exI [of _ ?choices]) simp
qed

theorem jump_lands_presenting_witness:
  "state
     (init_session\<lparr>state := show_feedback,
       questions :=
         JArray [JObject [(ustr ''question'', JString (ustr ''2+2?'')),
                          (ustr ''options'', JArray [JString (ustr ''3''), JString (ustr ''4'')]),
                          (ustr ''answer'', JString (ustr ''4''))],
                 JObject [(ustr ''question'', JString (ustr ''Q'')),
                          (ustr ''options'', JArray [JString (ustr ''A''), JString [], JString (ustr ''B'')]),
                          (ustr ''answer'', JString (ustr ''B''))]],
       user_answers := [1 \<mapsto> JString (ustr ''B'')]\<rparr>) = show_feedback \<and>
   as_store
     (questions
        (init_session\<lparr>state := show_feedback,
          questions :=
            JArray [JObject [(ustr ''question'', JString (ustr ''2+2?'')),
                             (ustr ''options'', JArray [JString (ustr ''3''), JString (ustr ''4'')]),
                             (ustr ''answer'', JString (ustr ''4''))],
                    JObject [(ustr ''question'', JString (ustr ''Q'')),
                             (ustr ''options'', JArray [JString (ustr ''A''), JString [], JString (ustr ''B'')]),
                             (ustr ''answer'', JString (ustr ''B''))]],
          user_answers := [1 \<mapsto> JString (ustr ''B'')]\<rparr>)) =
     Some [\<lparr>question = ustr ''2+2?'', options = [ustr ''3'', ustr ''4''], answer = ustr ''4''\<rparr>,
           \<lparr>question = ustr ''Q'', options = [ustr ''A'', [], ustr ''B''], answer = ustr ''B''\<rparr>] \<and>
   jumper_options 2 ! 1 = ustr ''Question 2'' \<and>
   map_sum id (\<lambda>oc. (state (session_of oc), current_question (session_of oc),
                    user_answers (session_of oc) 1,
                    previous_answer_index (session_of oc)
                      [JString (ustr ''A''), JString (ustr ''B'')]))
     (main (\<lambda>c. None) (Jump (ustr ''Question 2''))
        (init_session\<lparr>state := show_feedback,
          questions :=
            JArray [JObject [(ustr ''question'', JString (ustr ''2+2?'')),
                             (ustr ''options'', JArray [JString (ustr ''3''), JString (ustr ''4'')]),
                             (ustr ''answer'', JString (ustr ''4''))],
                    JObject [(ustr ''question'', JString (ustr ''Q'')),
                             (ustr ''options'', JArray [JString (ustr ''A''), JString [], JString (ustr ''B'')]),
                             (ustr ''answer'', JString (ustr ''B''))]],
          user_answers := [1 \<mapsto> JString (ustr ''B'')]\<rparr>)) =
     Inr (quiz_started, 1, Some (JString (ustr ''B'')), Inr 1)"
proof -
  let ?s = "init_session\<lparr>state := show_feedback,
              questions :=
                JArray [JObject [(ustr ''question'', JString (ustr ''2+2?'')),
                                 (ustr ''options'', JArray [JString (ustr ''3''), JString (ustr ''4'')]),
                                 (ustr ''answer'', JString (ustr ''4''))],
                        JObject [(ustr ''question'', JString (ustr ''Q'')),
                                 (ustr ''options'', JArray [JString (ustr ''A''), JString [], JString (ustr ''B'')]),
                                 (ustr ''answer'', JString (ustr ''B''))]],
              user_answers := [1 \<mapsto> JString (ustr ''B'')]\<rparr>"
  let ?qs = "[\<lparr>question = ustr ''2+2?'', options = [ustr ''3'', ustr ''4''], answer = ustr ''4''\<rparr>,
              \<lparr>question = ustr ''Q'', options = [ustr ''A'', [], ustr ''B''], answer = ustr ''B''\<rparr>]"
  have h1: "state ?s = quiz_started \<or> state ?s = show_feedback" by simp
  have h1': "state ?s = show_feedback" by simp
  have h2: "as_store (questions ?s) = Some ?qs" by code_simp
  have h3: "1 < length ?qs" by simp
  have sel: "jumper_options 2 ! 1 = ustr ''Question 2''" by code_simp
  have c: "map_sum id (\<lambda>oc. (state (session_of oc), current_question (session_of oc),
                    user_answers (session_of oc) 1,
                    previous_answer_index (session_of oc)
                      [JString (ustr ''A''), JString (ustr ''B'')]))
     (main (\<lambda>c. None) (Jump (ustr ''Question 2'')) ?s) =
     Inr (quiz_started, 1, Some (JString (ustr ''B'')), Inr 1)"
    by code_simp
  from jump_lands_presenting [OF h1 h2 h3, of "(\<lambda>c. None)"] h1' h2 sel c show ?thesis
    by blast
qed

text \<open>
  Claim C8. For an element of the prescribed shape the offered choices are its options
  without the empty texts, in their order. The verdict and the score compare the stored
  answer with the answer text and never look at the options: they are the same for an
  element and for one that differs from it in having its options filtered, and a
  submitted choice is judged correct exactly when it is the answer text.
\<close>

theorem empty_options_filtered_verdict_unchanged:
  assumes "as_item q_data = Some q"
  shows "\<exists>choices. valid_options q_data = Inr choices \<and>
           choices = map JString (filter (\<lambda>opt. opt \<noteq> []) (options q)) \<and>
           JString [] \<notin> set choices \<and>
           set choices = JString ` (set (options q) - {[]}) \<and>
           subseq choices (map JString (options q)) \<and>
           (\<forall>q_data'. as_item q_data' = Some (q\<lparr>options := filter (\<lambda>opt. opt \<noteq> []) (options q)\<rparr>) \<longrightarrow>
              feedback_correct s q_data' = feedback_correct s q_data) \<and>
           feedback_correct (check_answer (JString a) s) q_data = Inr (a = answer q) \<and>
           (\<forall>qs v v'. as_store v = Some qs \<and>
              as_store v' = Some (map (\<lambda>q. q\<lparr>options := filter (\<lambda>opt. opt \<noteq> []) (options q)\<rparr>) qs) \<longrightarrow>
              score (s\<lparr>questions := v'\<rparr>) = score (s\<lparr>questions := v\<rparr>))"
proof -
  let ?choices = "map JString (filter (\<lambda>opt. opt \<noteq> []) (options q))"
  have 1: "valid_options q_data = Inr ?choices" using assms by (rule valid_options_typed)
  have 2: "JString [] \<notin> set ?choices" by auto
  have 3: "set ?choices = JString ` (set (options q) - {[]})" by auto
  have 4: "subseq ?choices (map JString (options q))" by (simp add: subseq_map)
  have 5: "\<forall>q_data'. as_item q_data' = Some (q\<lparr>options := filter (\<lambda>opt. opt \<noteq> []) (options q)\<rparr>) \<longrightarrow>
              feedback_correct s q_data' = feedback_correct s q_data"
    by (simp add: feedback_correct_typed [OF assms] feedback_correct_typed)
  have 6: "feedback_correct (check_answer (JString a) s) q_data = Inr (a = answer q)"
    by (simp add: feedback_correct_typed [OF assms] check_answer_fields dict_get_default_def)
  have 7: "\<forall>qs v v'. as_store v = Some qs \<and>
              as_store v' = Some (map (\<lambda>q. q\<lparr>options := filter (\<lambda>opt. opt \<noteq> []) (options q)\<rparr>) qs) \<longrightarrow>
              score (s\<lparr>questions := v'\<rparr>) = score (s\<lparr>questions := v\<rparr>)"
  proof (intro allI impI, elim conjE)
    fix qs v v'
    assume v: "as_store v = Some qs"
      and v': "as_store v' = Some (map (\<lambda>q. q\<lparr>options := filter (\<lambda>opt. opt \<noteq> []) (options q)\<rparr>) qs)"
    have "score (s\<lparr>questions := v\<rparr>) =
            Inr (length (filter (\<lambda>(j, q). dict_get (user_answers s) (int j) = JString (answer q))
                    (enumerate 0 qs)))"
      using v by (subst score_typed [where qs = qs]) simp_all
    moreover have "score (s\<lparr>questions := v'\<rparr>) =
            Inr (length (filter (\<lambda>(j, q). dict_get (user_answers s) (int j) = JString (answer q))
                    (enumerate 0 (map (\<lambda>q. q\<lparr>options := filter (\<lambda>opt. opt \<noteq> []) (options q)\<rparr>) qs))))"
      using v' by (subst score_typed [where qs = "map (\<lambda>q. q\<lparr>options := filter (\<lambda>opt. opt \<noteq> []) (options q)\<rparr>) qs"]) simp_all
    moreover have "filter (\<lambda>(j, q). dict_get (user_answers s) (int j) = JString (answer q))
                    (enumerate 0 (map (\<lambda>q. q\<lparr>options := filter (\<lambda>opt. opt \<noteq> []) (options q)\<rparr>) qs)) =
          map (\<lambda>(j, q). (j, q\<lparr>options := filter (\<lambda>opt. opt \<noteq> []) (options q)\<rparr>))
            (filter (\<lambda>(j, q). dict_get (user_answers s) (int j) = JString (answer q))
               (enumerate 0 qs))"
      by (simp add: enumerate_map_upt filter_map comp_def case_prod_unfold zip_map2 enumerate_eq_zip)
    ultimately show "score (s\<lparr>questions := v'\<rparr>) = score (s\<lparr>questions := v\<rparr>)"
      by simp
  qed
  from 1 2 3 4 5 6 7 show ?thesis by blast
qed

theorem empty_options_filtered_verdict_unchanged_witness:
  "as_item
     (JObject [(ustr ''question'', JString (ustr ''Q'')),
              (ustr ''options'', JArray [JString (ustr ''A''), JString [], JString (ustr ''B'')]),
              (ustr ''answer'', JString (ustr ''B''))]) =
     Some \<lparr>question = ustr ''Q'', options = [ustr ''A'', [], ustr ''B''], answer = ustr ''B''\<rparr> \<and>
   valid_options
     (JObject [(ustr ''question'', JString (ustr ''Q'')),
              (ustr ''options'', JArray [JString (ustr ''A''), JString [], JString (ustr ''B'')]),
              (ustr ''answer'', JString (ustr ''B''))]) =
     Inr [JString (ustr ''A''), JString (ustr ''B'')] \<and>
   feedback_correct (check_answer (JString (ustr ''B'')) init_session)
     (JObject [(ustr ''question'', JString (ustr ''Q'')),
              (ustr ''options'', JArray [JString (ustr ''A''), JString [], JString (ustr ''B'')]),
              (ustr ''answer'', JString (ustr ''B''))]) = Inr True"
proof -
  let ?q_data = "JObject [(ustr ''question'', JString (ustr ''Q'')),
                           (ustr ''options'', JArray [JString (ustr ''A''), JString [], JString (ustr ''B'')]),
                           (ustr ''answer'', JString (ustr ''B''))]"
  let ?q = "\<lparr>question = ustr ''Q'', options = [ustr ''A'', [], ustr ''B''], answer = ustr ''B''\<rparr>"
  have h: "as_item ?q_data = Some ?q" by code_simp
  have c1: "valid_options ?q_data = Inr [JString (ustr ''A''), JString (ustr ''B'')]"
    by code_simp
  have c2: "feedback_correct (check_answer (JString (ustr ''B'')) init_session) ?q_data = Inr True"
    by code_simp
  from empty_options_filtered_verdict_unchanged [OF h, of init_session "ustr ''B''"] h c1 c2
  show ?thesis by blast
qed

lemma perfect_run_aux:
  assumes "as_store (questions s) = Some (ps @ ys)" and "ys \<noteq> []"
    and "current_question s = int (length ps)" and "state s = quiz_started"
    and "\<forall>i < length ps. user_answers s (int i) = Some (JString (answer ((ps @ ys) ! i)))"
  shows "\<exists>s'. run nd (concat (map (\<lambda>q. [Check_Answer (JString (answer q)), Next_Button]) ys)) s = Inr s' \<and>
           state s' = finished \<and> questions s' = questions s \<and>
           (\<forall>i < length (ps @ ys). user_answers s' (int i) = Some (JString (answer ((ps @ ys) ! i))))"
  using assms
proof (induction ys arbitrary: ps s)
  case Nil
  then show ?case by simp
next
  case (Cons y ys)
  let ?qs = "ps @ y # ys"
  define n where "n = length ?qs"
  let ?s1 = "check_answer (JString (answer y)) s"
  let ?s2 = "next_question n ?s1"
  have n: "int n = int (length ps) + 1 + int (length ys)" by (simp add: n_def)
  have rng: "0 \<le> current_question s" "current_question s < int (length ?qs)"
    using Cons.prems(3) by simp_all
  have typed1: "as_store (questions ?s1) = Some ?qs"
    using Cons.prems(1) by (simp add: check_answer_fields)
  have rng1: "0 \<le> current_question ?s1" "current_question ?s1 < int (length ?qs)"
    using rng by (simp_all add: check_answer_fields)
  have m1: "main nd (Check_Answer (JString (answer y))) s = Inr (Restart ?s1)"
    using Cons.prems(4) by (simp add: main_quiz_typed(1) [OF _ Cons.prems(1) rng])
  have r1: "main nd Rerun ?s1 = Inr (Done ?s1)"
    using typed1 rng1 by (rule main_rerun_typed)
  have "main nd Next_Button ?s1 = Inr (Restart (next_question (length ?qs) ?s1))"
    by (simp add: main_quiz_typed(2) [OF _ typed1 rng1] check_answer_fields del: length_append)
  then have m2: "main nd Next_Button ?s1 = Inr (Restart ?s2)" by (simp only: n_def)
  have q2: "questions ?s2 = questions s" by (simp add: next_question_fields check_answer_fields)
  have cur2: "current_question ?s2 = (if ys = [] then int (length ps) else int (length ps) + 1)"
    using Cons.prems(3) by (simp add: next_question_fields check_answer_fields n)
  have st2: "state ?s2 = (if ys = [] then finished else quiz_started)"
    using Cons.prems(3) by (simp add: next_question_fields check_answer_fields n)
  have typed2: "as_store (questions ?s2) = Some ?qs"
    using Cons.prems(1) by (simp only: q2)
  have rng2: "0 \<le> current_question ?s2" "current_question ?s2 < int (length ?qs)"
    unfolding cur2 by simp_all
  have r2: "main nd Rerun ?s2 = Inr (Done ?s2)"
    using typed2 rng2 by (rule main_rerun_typed)
  have steps: "run nd (Check_Answer (JString (answer y)) # Next_Button # evs) s = run nd evs ?s2"
    for evs
  proof -
    have r1': "main nd Rerun (session_of (Restart ?s1)) = Inr (Done (session_of (Restart ?s1)))"
      using r1 by simp
    have r2': "main nd Rerun (session_of (Restart ?s2)) = Inr (Done (session_of (Restart ?s2)))"
      using r2 by simp
    have "run nd (Check_Answer (JString (answer y)) # Next_Button # evs) s =
            run nd (Next_Button # evs) ?s1"
      using run_single [OF m1 r1', of "Next_Button # evs"] by (simp only: session_of.simps)
    also have "\<dots> = run nd evs ?s2"
      using run_single [OF m2 r2', of evs] by (simp only: session_of.simps)
    finally show ?thesis .
  qed
  have ans: "\<forall>i < Suc (length ps). user_answers ?s2 (int i) = Some (JString (answer (?qs ! i)))"
    using Cons.prems(3,5)
    by (auto simp: next_question_fields check_answer_fields less_Suc_eq nth_append)
  show ?case
  proof (cases "ys = []")
    case True
    then have "state ?s2 = finished" by (simp add: st2)
    moreover have "length ?qs = Suc (length ps)" using True by simp
    ultimately show ?thesis using True steps [of "[]"] ans q2 by simp
  next
    case False
    have "\<exists>s'. run nd (concat (map (\<lambda>q. [Check_Answer (JString (answer q)), Next_Button]) ys)) ?s2 = Inr s' \<and>
           state s' = finished \<and> questions s' = questions ?s2 \<and>
           (\<forall>i < length ((ps @ [y]) @ ys). user_answers s' (int i) =
              Some (JString (answer (((ps @ [y]) @ ys) ! i))))"
    proof (rule Cons.IH [of ?s2 "ps @ [y]"])
      show "as_store (questions ?s2) = Some ((ps @ [y]) @ ys)" using Cons.prems(1) q2 by simp
      show "ys \<noteq> []" by (rule False)
      show "current_question ?s2 = int (length (ps @ [y]))" using False by (simp add: cur2)
      show "state ?s2 = quiz_started" using False by (simp add: st2)
      show "\<forall>i<length (ps @ [y]). user_answers ?s2 (int i) =
              Some (JString (answer (((ps @ [y]) @ ys) ! i)))"
        using ans by simp
    qed
    then show ?thesis using steps q2 by simp
  qed
qed

lemma length_filter_all:
  "\<forall>i < length xs. P i (xs ! i) \<Longrightarrow>
   length (filter (\<lambda>(j, x). P j x) (enumerate 0 xs)) = length xs"
proof -
  assume a: "\<forall>i < length xs. P i (xs ! i)"
  have "\<forall>p \<in> set (enumerate 0 xs). (\<lambda>(j, x). P j x) p"
    using a by (auto simp: in_set_conv_nth nth_enumerate_eq)
  then have "filter (\<lambda>(j, x). P j x) (enumerate 0 xs) = enumerate 0 xs"
    by (simp only: filter_True)
  then show ?thesis by simp
qed

text \<open>
  Claim C9. From the answer form of question 0 of a non-empty store of the prescribed
  shape, submitting the answer text of each question and pressing the button after each
  ends in the final view with a score equal to the number of questions.
\<close>

theorem perfect_session_scores_all:
  assumes "as_store (questions s) = Some qs" and "qs \<noteq> []"
    and "state s = quiz_started" and "current_question s = 0"
  shows "\<exists>s'. run nd (concat (map (\<lambda>q. [Check_Answer (JString (answer q)), Next_Button]) qs)) s
                 = Inr s' \<and>
              state s' = finished \<and> questions s' = questions s \<and>
              score s' = Inr (length qs)"
proof -
  have "\<exists>s'. run nd (concat (map (\<lambda>q. [Check_Answer (JString (answer q)), Next_Button]) qs)) s = Inr s' \<and>
           state s' = finished \<and> questions s' = questions s \<and>
           (\<forall>i < length ([] @ qs). user_answers s' (int i) = Some (JString (answer (([] @ qs) ! i))))"
    using assms by (intro perfect_run_aux [of s "[]"]) simp_all
  then obtain s' where s': "run nd (concat (map (\<lambda>q. [Check_Answer (JString (answer q)), Next_Button]) qs)) s = Inr s'"
    "state s' = finished" "questions s' = questions s"
    "\<forall>i < length qs. user_answers s' (int i) = Some (JString (answer (qs ! i)))"
    by auto
  from s'(4) have "\<forall>i < length qs. dict_get (user_answers s') (int i) = JString (answer (qs ! i))"
    by (simp add: dict_get_def)
  then have "length (filter (\<lambda>(j, q). dict_get (user_answers s') (int j) = JString (answer q))
                    (enumerate 0 qs)) = length qs"
    by (rule length_filter_all)
  moreover have "as_store (questions s') = Some qs" using assms(1) s'(3) by simp
  ultimately have "score s' = Inr (length qs)" by (simp add: score_typed)
  with s' show ?thesis by blast
qed

theorem perfect_session_scores_all_witness:
  "as_store
     (questions
        (init_session\<lparr>state := quiz_started,
          questions :=
            JArray [JObject [(ustr ''question'', JString (ustr ''2+2?'')),
                             (ustr ''options'', JArray [JString (ustr ''3''), JString (ustr ''4'')]),
                             (ustr ''answer'', JString (ustr ''4''))],
                    JObject [(ustr ''question'', JString (ustr ''Q'')),
                             (ustr ''options'', JArray [JString (ustr ''A''), JString [], JString (ustr ''B'')]),
                             (ustr ''answer'', JString (ustr ''B''))]]\<rparr>)) =
     Some [\<lparr>question = ustr ''2+2?'', options = [ustr ''3'', ustr ''4''], answer = ustr ''4''\<rparr>,
           \<lparr>question = ustr ''Q'', options = [ustr ''A'', [], ustr ''B''], answer = ustr ''B''\<rparr>] \<and>
   state
     (init_session\<lparr>state := quiz_started,
       questions :=
         JArray [JObject [(ustr ''question'', JString (ustr ''2+2?'')),
                          (ustr ''options'', JArray [JString (ustr ''3''), JString (ustr ''4'')]),
                          (ustr ''answer'', JString (ustr ''4''))],
                 JObject [(ustr ''question'', JString (ustr ''Q'')),
                          (ustr ''options'', JArray [JString (ustr ''A''), JString [], JString (ustr ''B'')]),
                          (ustr ''answer'', JString (ustr ''B''))]]\<rparr>) = quiz_started \<and>
   current_question
     (init_session\<lparr>state := quiz_started,
       questions :=
         JArray [JObject [(ustr ''question'', JString (ustr ''2+2?'')),
                          (ustr ''options'', JArray [JString (ustr ''3''), JString (ustr ''4'')]),
                          (ustr ''answer'', JString (ustr ''4''))],
                 JObject [(ustr ''question'', JString (ustr ''Q'')),
                          (ustr ''options'', JArray [JString (ustr ''A''), JString [], JString (ustr ''B'')]),
                          (ustr ''answer'', JString (ustr ''B''))]]\<rparr>) = 0 \<and>
   map_sum id (\<lambda>s. (state s, score s))
     (run (\<lambda>c. None)
        [Check_Answer (JString (ustr ''4'')), Next_Button,
         Check_Answer (JString (ustr ''B'')), Next_Button]
        (init_session\<lparr>state := quiz_started,
          questions :=
            JArray [JObject [(ustr ''question'', JString (ustr ''2+2?'')),
                             (ustr ''options'', JArray [JString (ustr ''3''), JString (ustr ''4'')]),
                             (ustr ''answer'', JString (ustr ''4''))],
                    JObject [(ustr ''question'', JString (ustr ''Q'')),
                             (ustr ''options'', JArray [JString (ustr ''A''), JString [], JString (ustr ''B'')]),
                             (ustr ''answer'', JString (ustr ''B''))]]\<rparr>)) =
     Inr (finished, Inr 2)"
proof -
  let ?s = "init_session\<lparr>state := quiz_started,
              questions :=
                JArray [JObject [(ustr ''question'', JString (ustr ''2+2?'')),
                                 (ustr ''options'', JArray [JString (ustr ''3''), JString (ustr ''4'')]),
                                 (ustr ''answer'', JString (ustr ''4''))],
                        JObject [(ustr ''question'', JString (ustr ''Q'')),
                                 (ustr ''options'', JArray [JString (ustr ''A''), JString [], JString (ustr ''B'')]),
                                 (ustr ''answer'', JString (ustr ''B''))]]\<rparr>"
  let ?qs = "[\<lparr>question = ustr ''2+2?'', options = [ustr ''3'', ustr ''4''], answer = ustr ''4''\<rparr>,
              \<lparr>question = ustr ''Q'', options = [ustr ''A'', [], ustr ''B''], answer = ustr ''B''\<rparr>]"
  have h1: "as_store (questions ?s) = Some ?qs" by code_simp
  have h2: "?qs \<noteq> []" by simp
  have h3: "state ?s = quiz_started" by simp
  have h4: "current_question ?s = 0" by (simp add: init_session_def)
  have c: "map_sum id (\<lambda>s. (state s, score s))
     (run (\<lambda>c. None)
        [Check_Answer (JString (ustr ''4'')), Next_Button,
         Check_Answer (JString (ustr ''B'')), Next_Button] ?s) =
     Inr (finished, Inr 2)"
    by code_simp
  from perfect_session_scores_all [OF h1 h2 h3 h4, of "(\<lambda>c. None)"] h1 h3 h4 c show ?thesis
    by blast
qed

text \<open>
  Claim C2 says that the final score counts the positions whose stored answer equals the
  answer text, and that a position with no stored answer counts as incorrect. Line 132
  breaks the second part: \<^verbatim>\<open>user_answers.get(i)\<close> is \<^verbatim>\<open>None\<close> for such a position, and
  \<^verbatim>\<open>None == q['answer']\<close> holds when the reply gave \<^verbatim>\<open>null\<close> as the answer. For the
  reply below, after a jump to question 2, the answer \<^verbatim>\<open>A\<close> and the finish button, the
  ledger has no entry for position 0, the score is 2 of 2, and the review list (lines
  138-143, which reads the ledger with the default \<^verbatim>\<open>"Not Answered"\<close>) marks position 0
  as wrong.
\<close>

theorem score_counts_unanswered_position:
  \<open>map_sum id (\<lambda>s. (state s, user_answers s 0, user_answers s 1, score s, review s))
     (run (\<lambda>c. None)
        [Upload Key_Set
           (Response (ustr ''[{"question":"Q1","options":["A","B"],"answer":null},{"question":"Q2","options":["A","B"],"answer":"A"}]'')),
         Jump (ustr ''Question 2''),
         Check_Answer (JString (ustr ''A'')),
         Next_Button]
        init_session) =
   Inr (finished, None, Some (JString (ustr ''A'')), Inr 2, Inr [False, True])\<close>
  by code_simp

section \<open>The gateway claims\<close>

text \<open>
  Claim C1, as amended. The gateway validates nothing: when the cleaned reply decodes to
  an array, the gateway returns that array as it is, every element in its place, and a
  non-empty array starts the quiz with all of them. (The invariant that the answer is
  one of the options is only asked of the external service, in the prompt.)
\<close>

theorem gateway_keeps_every_element:
  assumes "json_loads (clean_reply t) = Inr (JArray xs)"
  shows "fst (parse_quiz_file_with_ai Key_Set (Response t)) = Inr (JArray xs) \<and>
         (xs \<noteq> [] \<longrightarrow>
            main nd (Upload Key_Set (Response t)) init_session =
              Inr (Restart (init_session\<lparr>questions := JArray xs, state := quiz_started\<rparr>)))"
proof -
  have res: "fst (parse_quiz_file_with_ai Key_Set (Response t)) = Inr (JArray xs)"
    using assms
    by (simp add: parse_quiz_file_with_ai_def configure_ai_def extraction_def py_len_def)
  then have "xs \<noteq> [] \<longrightarrow>
            main nd (Upload Key_Set (Response t)) init_session =
              Inr (Restart (init_session\<lparr>questions := JArray xs, state := quiz_started\<rparr>))"
    by (simp add: main_def init_session_def py_truthy_def)
  with res show ?thesis by (rule conjI)
qed

theorem gateway_keeps_every_element_witness:
  \<open>json_loads (clean_reply (ustr ''[{"question":"Q","options":["A","B"],"answer":"C"}]'')) =
     Inr (JArray [JObject [(ustr ''question'', JString (ustr ''Q'')),
                          (ustr ''options'', JArray [JString (ustr ''A''), JString (ustr ''B'')]),
                          (ustr ''answer'', JString (ustr ''C''))]]) \<and>
   fst (parse_quiz_file_with_ai Key_Set
          (Response (ustr ''[{"question":"Q","options":["A","B"],"answer":"C"}]''))) =
     Inr (JArray [JObject [(ustr ''question'', JString (ustr ''Q'')),
                          (ustr ''options'', JArray [JString (ustr ''A''), JString (ustr ''B'')]),
                          (ustr ''answer'', JString (ustr ''C''))]]) \<and>
   map_sum id (\<lambda>oc. (oc = Restart (session_of oc), state (session_of oc)))
     (main (\<lambda>c. None)
        (Upload Key_Set (Response (ustr ''[{"question":"Q","options":["A","B"],"answer":"C"}]'')))
        init_session) = Inr (True, quiz_started)\<close>
proof -
  have h: \<open>json_loads (clean_reply (ustr ''[{"question":"Q","options":["A","B"],"answer":"C"}]'')) =
     Inr (JArray [JObject [(ustr ''question'', JString (ustr ''Q'')),
                          (ustr ''options'', JArray [JString (ustr ''A''), JString (ustr ''B'')]),
                          (ustr ''answer'', JString (ustr ''C''))]])\<close>
    by code_simp
  have c: \<open>map_sum id (\<lambda>oc. (oc = Restart (session_of oc), state (session_of oc)))
     (main (\<lambda>c. None)
        (Upload Key_Set (Response (ustr ''[{"question":"Q","options":["A","B"],"answer":"C"}]'')))
        init_session) = Inr (True, quiz_started)\<close>
    using gateway_keeps_every_element [OF h, of "(\<lambda>c. None)"] by simp
  from gateway_keeps_every_element [OF h, of "(\<lambda>c. None)"] h c show ?thesis by blast
qed

text \<open>
  The claim as the specification states it fails: the reply of its scenario, one record
  whose answer is none of its options, gives a store that holds this record, and the
  quiz starts with it.
\<close>

theorem gateway_validates_records_counterexample:
  \<open>fst (parse_quiz_file_with_ai Key_Set
          (Response (ustr ''[{"question":"Q","options":["A","B"],"answer":"C"}]''))) =
     Inr (JArray [JObject [(ustr ''question'', JString (ustr ''Q'')),
                          (ustr ''options'', JArray [JString (ustr ''A''), JString (ustr ''B'')]),
                          (ustr ''answer'', JString (ustr ''C''))]]) \<and>
   map_option (map (\<lambda>q. answer q \<in> set (options q)))
     (as_store
        (JArray [JObject [(ustr ''question'', JString (ustr ''Q'')),
                         (ustr ''options'', JArray [JString (ustr ''A''), JString (ustr ''B'')]),
                         (ustr ''answer'', JString (ustr ''C''))]])) =
     Some [False] \<and>
   map_sum id (\<lambda>oc. (state (session_of oc), questions (session_of oc)))
     (main (\<lambda>c. None)
        (Upload Key_Set (Response (ustr ''[{"question":"Q","options":["A","B"],"answer":"C"}]'')))
        init_session) =
     Inr (quiz_started,
          JArray [JObject [(ustr ''question'', JString (ustr ''Q'')),
                           (ustr ''options'', JArray [JString (ustr ''A''), JString (ustr ''B'')]),
                           (ustr ''answer'', JString (ustr ''C''))]])\<close>
  by code_simp

text \<open>
  Claim C5, as amended. When the body of the gateway fails because a service call
  raises, the cleaned reply does not decode, or it decodes to a value without a length,
  the gateway shows the cause and, when there is a response, its raw text, shows no
  success message, and returns the empty list; so it does when the key is not
  configured, after the messages of \<^verbatim>\<open>configure_ai\<close>. That is the value a successful
  extraction of an empty array returns, and \<^verbatim>\<open>main\<close> does the same in both cases. (What
  happens for a response without text is left out here.)
\<close>

theorem failed_extraction_returns_empty_list:
  assumes "extraction call = Inl e" and "call \<noteq> Blocked"
  shows "fst (parse_quiz_file_with_ai Key_Set call) = Inr (JArray []) \<and>
         St_Error_Details e \<in> set (snd (parse_quiz_file_with_ai Key_Set call)) \<and>
         (\<forall>t. call = Response t \<longrightarrow>
            St_Code t \<in> set (snd (parse_quiz_file_with_ai Key_Set call))) \<and>
         (\<forall>m. St_Success m \<notin> set (snd (parse_quiz_file_with_ai Key_Set call))) \<and>
         (\<forall>sec. sec \<noteq> Key_Set \<longrightarrow>
            parse_quiz_file_with_ai sec call = (Inr (JArray []), snd (configure_ai sec))) \<and>
         fst (parse_quiz_file_with_ai Key_Set (Response (ustr ''[]''))) = Inr (JArray []) \<and>
         main nd (Upload Key_Set call) init_session =
           main nd (Upload Key_Set (Response (ustr ''[]''))) init_session"
proof -
  have empty: "fst (parse_quiz_file_with_ai Key_Set (Response (ustr ''[]''))) = Inr (JArray [])"
    by code_simp
  have failed: "parse_quiz_file_with_ai Key_Set call =
      (Inr (JArray []),
       [St_Info (ustr ''Keedam AI is analyzing your document. This may take a few moments...''),
        St_Error (ustr ''An error occurred while the AI was analyzing the file.''),
        St_Error_Details e] @
       (case call of Response t \<Rightarrow> [St_Code t] | _ \<Rightarrow> []))"
    using assms
    by (cases call) (simp_all add: parse_quiz_file_with_ai_def configure_ai_def handler_def)
  have unset: "\<forall>sec. sec \<noteq> Key_Set \<longrightarrow>
            parse_quiz_file_with_ai sec call = (Inr (JArray []), snd (configure_ai sec))"
  proof (intro allI impI)
    fix sec :: secrets
    assume "sec \<noteq> Key_Set"
    then show "parse_quiz_file_with_ai sec call = (Inr (JArray []), snd (configure_ai sec))"
      by (cases sec) (simp_all add: parse_quiz_file_with_ai_def configure_ai_def)
  qed
  have "main nd (Upload Key_Set call) init_session =
          Inr (Done (init_session\<lparr>questions := JArray []\<rparr>))"
    by (simp add: main_def failed py_truthy_def init_session_def)
  moreover have "main nd (Upload Key_Set (Response (ustr ''[]''))) init_session =
                   Inr (Done (init_session\<lparr>questions := JArray []\<rparr>))"
    using empty by (simp add: main_def py_truthy_def init_session_def)
  ultimately have same: "main nd (Upload Key_Set call) init_session =
                         main nd (Upload Key_Set (Response (ustr ''[]''))) init_session"
    by simp
  have shown: "St_Error_Details e \<in> set (snd (parse_quiz_file_with_ai Key_Set call))"
    "\<forall>t. call = Response t \<longrightarrow> St_Code t \<in> set (snd (parse_quiz_file_with_ai Key_Set call))"
    "\<forall>m. St_Success m \<notin> set (snd (parse_quiz_file_with_ai Key_Set call))"
    unfolding failed by (cases call; simp)+
  have res: "fst (parse_quiz_file_with_ai Key_Set call) = Inr (JArray [])"
    unfolding failed by simp
  from res shown unset empty same show ?thesis by blast
qed

theorem failed_extraction_returns_empty_list_witness:
  "extraction (Response (ustr ''Sorry, I cannot read this file.'')) = Inl JSONDecodeError \<and>
   parse_quiz_file_with_ai Key_Set (Response (ustr ''Sorry, I cannot read this file.'')) =
     (Inr (JArray []),
      [St_Info (ustr ''Keedam AI is analyzing your document. This may take a few moments...''),
       St_Error (ustr ''An error occurred while the AI was analyzing the file.''),
       St_Error_Details JSONDecodeError,
       St_Code (ustr ''Sorry, I cannot read this file.'')])"
proof -
  have h: "extraction (Response (ustr ''Sorry, I cannot read this file.'')) = Inl JSONDecodeError"
    by code_simp
  have nb: "Response (ustr ''Sorry, I cannot read this file.'') \<noteq> Blocked" by simp
  have c: "parse_quiz_file_with_ai Key_Set (Response (ustr ''Sorry, I cannot read this file.'')) =
     (Inr (JArray []),
      [St_Info (ustr ''Keedam AI is analyzing your document. This may take a few moments...''),
       St_Error (ustr ''An error occurred while the AI was analyzing the file.''),
       St_Error_Details JSONDecodeError,
       St_Code (ustr ''Sorry, I cannot read this file.'')])"
    by code_simp
  from failed_extraction_returns_empty_list [OF h nb] h c show ?thesis by blast
qed

text \<open>
  The claim as the specification states it fails: a reply that does not decode, a
  service call that raises and a reply that is the empty array give the same result,
  and the application goes on in the same way after all of them.
\<close>

theorem failure_distinguishable_counterexample:
  "fst (parse_quiz_file_with_ai Key_Set (Response (ustr ''Sorry, I cannot read this file.''))) =
     fst (parse_quiz_file_with_ai Key_Set (Response (ustr ''[]''))) \<and>
   fst (parse_quiz_file_with_ai Key_Set (Call_Raises (ustr ''503 service unavailable''))) =
     fst (parse_quiz_file_with_ai Key_Set (Response (ustr ''[]''))) \<and>
   map_sum id (\<lambda>oc. (oc = Done (session_of oc), state (session_of oc), questions (session_of oc)))
     (main (\<lambda>c. None) (Upload Key_Set (Response (ustr ''Sorry, I cannot read this file.'')))
        init_session) =
   map_sum id (\<lambda>oc. (oc = Done (session_of oc), state (session_of oc), questions (session_of oc)))
     (main (\<lambda>c. None) (Upload Key_Set (Response (ustr ''[]''))) init_session)"
proof -
  have a: "parse_quiz_file_with_ai Key_Set (Response (ustr ''Sorry, I cannot read this file.'')) =
     (Inr (JArray []),
      [St_Info (ustr ''Keedam AI is analyzing your document. This may take a few moments...''),
       St_Error (ustr ''An error occurred while the AI was analyzing the file.''),
       St_Error_Details JSONDecodeError,
       St_Code (ustr ''Sorry, I cannot read this file.'')])"
    by code_simp
  have b: "fst (parse_quiz_file_with_ai Key_Set (Response (ustr ''[]''))) = Inr (JArray [])"
    by code_simp
  have c: "fst (parse_quiz_file_with_ai Key_Set (Call_Raises (ustr ''503 service unavailable''))) =
     Inr (JArray [])"
    by code_simp
  show ?thesis
    by (simp add: main_def a [simplified] b [simplified] c [simplified] init_session_def
        py_truthy_def)
qed


end
